theory Spec2Isabelle
  imports Main "HOL-Library.AList" "HOL-Library.Word"
begin

section \<open>Data model of the Airtable mirror\<close>

text \<open>
  A Go \<^verbatim>\<open>map[string]V\<close> is an association list with distinct keys. The order of the
  list is the order in which one \<^verbatim>\<open>range\<close> loop visits the entries; Go leaves that order
  unspecified, so every property below is proved for all orders. Reading a key is
  \<open>map_of\<close>, writing one is \<open>AList.update\<close>.
\<close>

type_synonym 'v gomap = "(string \<times> 'v) list"

text \<open>
  \<^verbatim>\<open>float64\<close>: the engine only copies amounts, so an amount is kept as its IEEE-754 bit pattern.
\<close>

type_synonym float64 = "64 word"

text \<open>
  \<^verbatim>\<open>plaid.Transaction\<close> as \<^verbatim>\<open>Sync\<close> reads it. Its fields share names with those of the
  mirror's records below, so they are written with their record's name:
  \<open>Transaction.ID\<close>, \<open>Location.Address\<close>.
\<close>

record Location =
  Address :: string
  City :: string

record Transaction =
  ID :: string
  AccountID :: string
  Amount :: float64
  Name :: string
  MerchantName :: string
  Pending :: bool
  Date :: string
  Category :: "string list"
  Location :: Location

text \<open>\<^verbatim>\<open>airtable.RecordLink\<close>, a list of row identifiers.\<close>

type_synonym RecordLink = "string list"

record TransactionFields =
  PlaidID :: string
  AccountID :: string
  AccountIDLink :: RecordLink
  Amount :: float64
  Name :: string
  MerchantName :: string
  Pending :: bool
  DateTime :: string
  PlaidCategory1 :: string
  PlaidCategory2 :: string
  PlaidCategory3 :: string
  Address :: string
  CategoryLookup :: RecordLink

text \<open>
  \<^verbatim>\<open>TransactionRecord\<close> embeds \<^verbatim>\<open>airtable.Record\<close>; the field of it that the engine reads and
  writes is \<open>ID\<close>, the identifier of the stored row.
\<close>

record TransactionRecord =
  ID :: string
  Fields :: TransactionFields
  Typecast :: bool

record AccountUpdate =
  ToCreate :: "TransactionRecord list"
  ToDelete :: "TransactionRecord list"
  ToUpdate :: "TransactionRecord list"

text \<open>
  An instant of \<^verbatim>\<open>time.Time\<close>, in nanoseconds since the Unix epoch; \<^verbatim>\<open>t.After(u)\<close> compares
  instants.
\<close>

type_synonym time = int

definition After :: "time \<Rightarrow> time \<Rightarrow> bool" where
  "After t u \<longleftrightarrow> u < t"

section \<open>Arranging records by account and transaction\<close>

text \<open>\<^verbatim>\<open>m[k]\<close> on a map of maps: a missing key reads as the nil map, which has no entries.\<close>

definition index :: "'v gomap gomap \<Rightarrow> string \<Rightarrow> 'v gomap" where
  "index m k = (case map_of m k of None \<Rightarrow> [] | Some v \<Rightarrow> v)"

fun arrange :: "TransactionRecord list \<Rightarrow> TransactionRecord gomap gomap \<Rightarrow> TransactionRecord gomap gomap" where
  "arrange [] ret = ret"
| "arrange (t # ts) ret =
     (let byID = index ret (AccountID (Fields t))
      in arrange ts
           (AList.update (AccountID (Fields t)) (AList.update (PlaidID (Fields t)) t byID) ret))"

definition byAccountIDbyTransactionID :: "TransactionRecord list \<Rightarrow> TransactionRecord gomap gomap" where
  "byAccountIDbyTransactionID ts = arrange ts []"

section \<open>The reconciliation engine\<close>

text \<open>
  \<^verbatim>\<open>updateAccount\<close>, first loop: every source record is noted in \<open>ids\<close>; one with no mirror
  row is created, one whose mirror row differs in \<open>Pending\<close> or \<open>Address\<close> is updated under
  the mirror row's \<open>ID\<close>.
\<close>

fun sourceLoop :: "TransactionRecord gomap \<Rightarrow> TransactionRecord gomap \<Rightarrow>
    AccountUpdate \<times> string set \<Rightarrow> AccountUpdate \<times> string set" where
  "sourceLoop [] airtableTs (u, ids) = (u, ids)"
| "sourceLoop ((tid, t) # rest) airtableTs (u, ids) =
     (case map_of airtableTs tid of
        None \<Rightarrow> sourceLoop rest airtableTs (u\<lparr>ToCreate := ToCreate u @ [t]\<rparr>, insert tid ids)
      | Some existing \<Rightarrow>
          if Pending (Fields existing) \<noteq> Pending (Fields t) \<or>
             Address (Fields existing) \<noteq> Address (Fields t)
          then sourceLoop rest airtableTs
                 (u\<lparr>ToUpdate := ToUpdate u @ [t\<lparr>ID := ID existing\<rparr>]\<rparr>, insert tid ids)
          else sourceLoop rest airtableTs (u, insert tid ids))"

text \<open>
  Second loop: every mirror row whose key is not in \<open>ids\<close> has its date parsed; a date that
  does not parse panics (\<open>Inl\<close>), a date after the cutoff schedules the row for deletion.
  \<open>parse\<close> stands for \<^verbatim>\<open>time.Parse("2006-01-02", _)\<close>.
\<close>

fun mirrorLoop :: "(string \<Rightarrow> 'e + time) \<Rightarrow> time \<Rightarrow> string set \<Rightarrow> TransactionRecord gomap \<Rightarrow>
    AccountUpdate \<Rightarrow> 'e + AccountUpdate" where
  "mirrorLoop parse cutoff ids [] u = Inr u"
| "mirrorLoop parse cutoff ids ((tid, t) # rest) u =
     (if tid \<notin> ids then
        (case parse (DateTime (Fields t)) of
           Inl err \<Rightarrow> Inl err
         | Inr transactionTime \<Rightarrow>
             if After transactionTime cutoff
             then mirrorLoop parse cutoff ids rest (u\<lparr>ToDelete := ToDelete u @ [t]\<rparr>)
             else mirrorLoop parse cutoff ids rest u)
      else mirrorLoop parse cutoff ids rest u)"

text \<open>
  \<open>cutoff\<close> is the value of \<^verbatim>\<open>time.Now().AddDate(0, -1, 0)\<close> read between the two loops.
\<close>

definition updateAccount :: "(string \<Rightarrow> 'e + time) \<Rightarrow> time \<Rightarrow> TransactionRecord gomap \<Rightarrow>
    TransactionRecord gomap \<Rightarrow> 'e + AccountUpdate" where
  "updateAccount parse cutoff plaidTs airtableTs =
     (let (u, ids) = sourceLoop plaidTs airtableTs
                       (\<lparr>ToCreate = [], ToDelete = [], ToUpdate = []\<rparr>, {})
      in mirrorLoop parse cutoff ids airtableTs u)"

text \<open>
  A record is identified by its account and its Plaid transaction identifier.
  \<^verbatim>\<open>byAccountIDbyTransactionID\<close> files every record under exactly these two fields, so the key
  of an entry of a per-account map is the \<open>PlaidID\<close> of its record.
\<close>

definition recordKey :: "TransactionRecord \<Rightarrow> string \<times> string" where
  "recordKey t = (AccountID (Fields t), PlaidID (Fields t))"

definition keyedByPlaidID :: "TransactionRecord gomap \<Rightarrow> bool" where
  "keyedByPlaidID m \<longleftrightarrow> list_all (\<lambda>(k, t). PlaidID (Fields t) = k) m"

subsection \<open>The older copy of the engine\<close>

text \<open>
  \<^verbatim>\<open>src/airtable_transactions.go\<close> holds an older \<^verbatim>\<open>updateAccount\<close>, which the sync command
  no longer calls: its plan has no \<^verbatim>\<open>ToUpdate\<close>, a changed \<open>Pending\<close> flag is a delete plus a
  create, and a mirror row missing from the source is deleted whatever its date. The pair
  returned is (\<^verbatim>\<open>ToCreate\<close>, \<^verbatim>\<open>ToDelete\<close>).
\<close>

fun sourceLoop_old :: "TransactionRecord gomap \<Rightarrow> TransactionRecord gomap \<Rightarrow>
    (TransactionRecord list \<times> TransactionRecord list) \<times> string set \<Rightarrow>
    (TransactionRecord list \<times> TransactionRecord list) \<times> string set" where
  "sourceLoop_old [] airtableTs (u, ids) = (u, ids)"
| "sourceLoop_old ((tid, t) # rest) airtableTs ((toCreate, toDelete), ids) =
     (case map_of airtableTs tid of
        None \<Rightarrow> sourceLoop_old rest airtableTs ((toCreate @ [t], toDelete), insert tid ids)
      | Some existing \<Rightarrow>
          if Pending (Fields existing) \<noteq> Pending (Fields t)
          then sourceLoop_old rest airtableTs
                 ((toCreate @ [t], toDelete @ [t\<lparr>ID := ID existing\<rparr>]), insert tid ids)
          else sourceLoop_old rest airtableTs ((toCreate, toDelete), insert tid ids))"

fun mirrorLoop_old :: "string set \<Rightarrow> TransactionRecord gomap \<Rightarrow>
    TransactionRecord list \<times> TransactionRecord list \<Rightarrow>
    TransactionRecord list \<times> TransactionRecord list" where
  "mirrorLoop_old ids [] u = u"
| "mirrorLoop_old ids ((tid, t) # rest) (toCreate, toDelete) =
     (if tid \<notin> ids then mirrorLoop_old ids rest (toCreate, toDelete @ [t])
      else mirrorLoop_old ids rest (toCreate, toDelete))"

definition updateAccount_old :: "TransactionRecord gomap \<Rightarrow> TransactionRecord gomap \<Rightarrow>
    TransactionRecord list \<times> TransactionRecord list" where
  "updateAccount_old plaidTs airtableTs =
     (let (u, ids) = sourceLoop_old plaidTs airtableTs (([], []), {})
      in mirrorLoop_old ids airtableTs u)"

subsection \<open>Applying the plans\<close>

text \<open>
  The write phase of \<^verbatim>\<open>Sync\<close>. The table's \<^verbatim>\<open>Delete\<close>, \<^verbatim>\<open>Create\<close> and \<^verbatim>\<open>Update\<close> act on a
  store \<open>'st\<close> and may return an error; the first error ends \<^verbatim>\<open>Sync\<close>.
\<close>

fun applyEach :: "(TransactionRecord \<Rightarrow> 'st \<Rightarrow> 'err option \<times> 'st) \<Rightarrow> TransactionRecord list \<Rightarrow>
    'st \<Rightarrow> 'err option \<times> 'st" where
  "applyEach call [] st = (None, st)"
| "applyEach call (t # ts) st =
     (case call t st of
        (Some err, st') \<Rightarrow> (Some err, st')
      | (None, st') \<Rightarrow> applyEach call ts st')"

text \<open>
  The loop of \<^verbatim>\<open>Sync\<close> over the accounts of the source. \<open>cutoff accountID\<close> is the cutoff
  that \<^verbatim>\<open>updateAccount\<close> computes from the clock when that account is reached. The result
  is \<open>Inl\<close> for a panic, which nothing recovers, and \<open>Inr\<close> for the error \<^verbatim>\<open>Sync\<close>
  returns (\<open>None\<close> is \<^verbatim>\<open>nil\<close>).
\<close>

fun syncAccounts :: "(string \<Rightarrow> 'e + time) \<Rightarrow> (string \<Rightarrow> time) \<Rightarrow>
    (TransactionRecord \<Rightarrow> 'st \<Rightarrow> 'err option \<times> 'st) \<Rightarrow>
    (TransactionRecord \<Rightarrow> 'st \<Rightarrow> 'err option \<times> 'st) \<Rightarrow>
    (TransactionRecord \<Rightarrow> 'st \<Rightarrow> 'err option \<times> 'st) \<Rightarrow>
    TransactionRecord gomap gomap \<Rightarrow> TransactionRecord gomap gomap \<Rightarrow> 'st \<Rightarrow>
    ('e + 'err option) \<times> 'st" where
  "syncAccounts parse cutoff tableDelete tableCreate tableUpdate [] airtableArranged st =
     (Inr None, st)"
| "syncAccounts parse cutoff tableDelete tableCreate tableUpdate
       ((accountID, transactions) # rest) airtableArranged st =
     (case updateAccount parse (cutoff accountID) transactions (index airtableArranged accountID) of
        Inl p \<Rightarrow> (Inl p, st)
      | Inr updates \<Rightarrow>
          (case applyEach tableDelete (ToDelete updates) st of
             (Some err, st1) \<Rightarrow> (Inr (Some err), st1)
           | (None, st1) \<Rightarrow>
               (case applyEach tableCreate (ToCreate updates) st1 of
                  (Some err, st2) \<Rightarrow> (Inr (Some err), st2)
                | (None, st2) \<Rightarrow>
                    (case applyEach tableUpdate (ToUpdate updates) st2 of
                       (Some err, st3) \<Rightarrow> (Inr (Some err), st3)
                     | (None, st3) \<Rightarrow>
                         syncAccounts parse cutoff tableDelete tableCreate tableUpdate
                           rest airtableArranged st3))))"

text \<open>
  The first loop of \<^verbatim>\<open>Sync\<close> turns every fetched transaction into a record. \<open>tagAt\<close> is
  its local function \<^verbatim>\<open>s\<close>: the category at a position, or the empty string past the end.
  The record's \<open>ID\<close> starts as the Plaid identifier; \<^verbatim>\<open>CategoryLookup\<close> is left at its zero
  value.
\<close>

definition tagAt :: "string list \<Rightarrow> nat \<Rightarrow> string" where
  "tagAt tags n = (if n \<ge> length tags then [] else tags ! n)"

definition toRecord :: "Transaction \<Rightarrow> TransactionRecord" where
  "toRecord t =
     (let address = Location.Address (Location t) @ '' '' @ City (Location t)
      in \<lparr>ID = Transaction.ID t,
          Fields = \<lparr>PlaidID = Transaction.ID t,
            AccountID = Transaction.AccountID t,
            AccountIDLink = [Transaction.AccountID t],
            Amount = Transaction.Amount t,
            Name = Transaction.Name t,
            MerchantName = Transaction.MerchantName t,
            Pending = Transaction.Pending t,
            DateTime = Date t,
            PlaidCategory1 = tagAt (Category t) 0,
            PlaidCategory2 = tagAt (Category t) 1,
            PlaidCategory3 = tagAt (Category t) 2,
            Address = address,
            CategoryLookup = []\<rparr>,
          Typecast = True\<rparr>)"

definition Sync :: "(string \<Rightarrow> 'e + time) \<Rightarrow> (string \<Rightarrow> time) \<Rightarrow>
    (TransactionRecord \<Rightarrow> 'st \<Rightarrow> 'err option \<times> 'st) \<Rightarrow>
    (TransactionRecord \<Rightarrow> 'st \<Rightarrow> 'err option \<times> 'st) \<Rightarrow>
    (TransactionRecord \<Rightarrow> 'st \<Rightarrow> 'err option \<times> 'st) \<Rightarrow>
    Transaction list \<Rightarrow> TransactionRecord list \<Rightarrow> 'st \<Rightarrow> ('e + 'err option) \<times> 'st" where
  "Sync parse cutoff tableDelete tableCreate tableUpdate transactions airtableTransactions st =
     (let plaidTransactions = map toRecord transactions;
          plaidArranged = byAccountIDbyTransactionID plaidTransactions;
          airtableArranged = byAccountIDbyTransactionID airtableTransactions
      in syncAccounts parse cutoff tableDelete tableCreate tableUpdate
           plaidArranged airtableArranged st)"

subsection \<open>Dates in the layout \<^verbatim>\<open>2006-01-02\<close>\<close>

text \<open>
  The engine's properties are proved for every \<open>parse\<close>. To run it on rows with real
  dates, \<open>parseDate\<close> reads the layout as \<^verbatim>\<open>time.Parse\<close> does: a four-digit year, a
  two-digit month and a two-digit day of a valid calendar date, separated by hyphens, and
  nothing else; the instant is midnight UTC of that day.
\<close>

datatype ParseError = ParseError string

definition isDigit :: "char \<Rightarrow> bool" where
  "isDigit c \<longleftrightarrow> 48 \<le> (of_char c :: nat) \<and> (of_char c :: nat) \<le> 57"

fun atoi :: "string \<Rightarrow> nat \<Rightarrow> nat option" where
  "atoi [] n = Some n"
| "atoi (c # cs) n = (if isDigit c then atoi cs (10 * n + (of_char c - 48)) else None)"

definition isLeap :: "nat \<Rightarrow> bool" where
  "isLeap year \<longleftrightarrow> year mod 4 = 0 \<and> (year mod 100 \<noteq> 0 \<or> year mod 400 = 0)"

definition daysIn :: "nat \<Rightarrow> nat \<Rightarrow> nat" where
  "daysIn m year =
     (if m = 2 then (if isLeap year then 29 else 28)
      else if m = 4 \<or> m = 6 \<or> m = 9 \<or> m = 11 then 30 else 31)"

text \<open>Days from 1970-01-01 to a date of the proleptic Gregorian calendar.\<close>

definition daysSinceEpoch :: "nat \<Rightarrow> nat \<Rightarrow> nat \<Rightarrow> int" where
  "daysSinceEpoch year m d =
     (let y = int year - (if m \<le> 2 then 1 else 0);
          era = y div 400;
          yoe = y - era * 400;
          mp = (if m > 2 then int m - 3 else int m + 9);
          doy = (153 * mp + 2) div 5 + int d - 1;
          doe = yoe * 365 + yoe div 4 - yoe div 100 + doy
      in era * 146097 + doe - 719468)"

definition parseDate :: "string \<Rightarrow> ParseError + time" where
  "parseDate v =
     (if length v \<noteq> 10 \<or> v ! 4 \<noteq> CHR ''-'' \<or> v ! 7 \<noteq> CHR ''-'' then Inl (ParseError v)
      else
        (case (atoi (take 4 v) 0, atoi (take 2 (drop 5 v)) 0, atoi (drop 8 v) 0) of
           (Some year, Some m, Some d) \<Rightarrow>
             if m < 1 \<or> 12 < m then Inl (ParseError ''month out of range'')
             else if d < 1 \<or> daysIn m year < d then Inl (ParseError ''day out of range'')
             else Inr (daysSinceEpoch year m d * 86400 * 1000000000)
         | _ \<Rightarrow> Inl (ParseError v)))"

section \<open>The pagination fetcher\<close>

text \<open>
  The request and response of \<^verbatim>\<open>TransactionsGet\<close>, with the fields the fetcher and its call
  sites touch. A Go pointer is an \<open>option\<close> (\<open>None\<close> is \<^verbatim>\<open>nil\<close>); \<^verbatim>\<open>int32\<close> is a 32-bit
  word read with \<open>sint\<close>, and \<open>+\<close> on it wraps as Go's does.
\<close>

record TransactionsGetRequestOptions =
  AccountIds :: "string list option"
  Count :: "32 word option"
  Offset :: "32 word option"

record TransactionsGetRequest =
  StartDate :: string
  EndDate :: string
  Options :: "TransactionsGetRequestOptions option"
  AccessToken :: string

record 'tx TransactionsGetResponse =
  Transactions :: "'tx list"
  TotalTransactions :: "32 word"

datatype runtimeError = NilPointerDereference

text \<open>
  One call of \<^verbatim>\<open>client.PlaidApi.TransactionsGet(ctx).TransactionsGetRequest(req).Execute()\<close>:
  it answers a request in a state \<open>'s\<close> of the outside world with an error or a page, and
  leaves a new state. The fetcher's log pairs every request it issued with its answer.
\<close>

type_synonym ('s, 'e, 'tx) execute =
  "TransactionsGetRequest \<Rightarrow> 's \<Rightarrow> ('e + 'tx TransactionsGetResponse) \<times> 's"

type_synonym ('e, 'tx) exchange = "TransactionsGetRequest \<times> ('e + 'tx TransactionsGetResponse)"

text \<open>
  What \<^verbatim>\<open>AllTransactions\<close> hands back: a panic (\<open>Inl\<close>) or the pair it returns, then the log
  and the state of the world. The loop may run forever, which is the value \<open>None\<close>.
\<close>

type_synonym ('s, 'e, 'tx) fetched =
  "((runtimeError + 'tx list \<times> 'e option) \<times> ('e, 'tx) exchange list \<times> 's) option"

text \<open>
  The \<^verbatim>\<open>for\<close> loop. \<open>totalTransactions\<close> is \<^verbatim>\<open>int(res.TotalTransactions)\<close> of the first response: the
  \<^verbatim>\<open>res\<close> assigned inside the body is a new variable of the body's scope, so the loop
  condition keeps reading the first one.
\<close>

partial_function (option) pageLoop :: "('s, 'e, 'tx) execute \<Rightarrow> int \<Rightarrow> TransactionsGetRequest \<Rightarrow>
    'tx list \<Rightarrow> ('e, 'tx) exchange list \<Rightarrow> 's \<Rightarrow> ('s, 'e, 'tx) fetched" where
  "pageLoop execute totalTransactions req transactions exchanges s =
     (if int (length transactions) < totalTransactions then
        (case Options req of
           None \<Rightarrow> Some (Inl NilPointerDereference, exchanges, s)
         | Some opts \<Rightarrow>
             (case Offset opts of
                None \<Rightarrow> Some (Inl NilPointerDereference, exchanges, s)
              | Some off \<Rightarrow>
                  (case Count opts of
                     None \<Rightarrow> Some (Inl NilPointerDereference, exchanges, s)
                   | Some cnt \<Rightarrow>
                       (let req' = req\<lparr>Options := Some (opts\<lparr>Offset := Some (off + cnt)\<rparr>)\<rparr>
                        in case execute req' s of
                             (Inl err, s') \<Rightarrow>
                               Some (Inr (transactions, Some err), exchanges @ [(req', Inl err)], s')
                           | (Inr res, s') \<Rightarrow>
                               pageLoop execute totalTransactions req' (transactions @ Transactions res)
                                 (exchanges @ [(req', Inr res)]) s'))))
      else Some (Inr (transactions, None), exchanges, s))"

definition AllTransactions :: "('s, 'e, 'tx) execute \<Rightarrow> TransactionsGetRequest \<Rightarrow> 's \<Rightarrow>
    ('s, 'e, 'tx) fetched" where
  "AllTransactions execute req s =
     (case execute req s of
        (Inl err, s') \<Rightarrow> Some (Inr ([], Some err), [(req, Inl err)], s')
      | (Inr res, s') \<Rightarrow>
          pageLoop execute (sint (TotalTransactions res)) req (Transactions res)
            [(req, Inr res)] s')"

text \<open>
  A server that holds the records \<open>recs\<close> and answers every request with the page its
  offset and count select, and with the number of records as the total. A request that
  names no offset or count gets the API's defaults, 0 and 100.
\<close>

definition pagedServer :: "'tx list \<Rightarrow> ('s, 'e, 'tx) execute" where
  "pagedServer recs req s =
     (let off = (case Options req of None \<Rightarrow> 0
                 | Some opts \<Rightarrow> (case Offset opts of None \<Rightarrow> 0 | Some w \<Rightarrow> nat (sint w)));
          cnt = (case Options req of None \<Rightarrow> 100
                 | Some opts \<Rightarrow> (case Count opts of None \<Rightarrow> 100 | Some w \<Rightarrow> nat (sint w)))
      in (Inr \<lparr>Transactions = take cnt (drop off recs),
               TotalTransactions = word_of_nat (length recs)\<rparr>, s))"

text \<open>
  The request that the \<^verbatim>\<open>transactions\<close> and \<^verbatim>\<open>sync-transactions\<close> commands build. Both start
  from \<^verbatim>\<open>plaid.NewTransactionsGetRequestOptions()\<close>, a function of the Plaid client library
  whose result is the parameter \<open>newOptions\<close>, and set only the account filter on it.
\<close>

definition commandRequest :: "TransactionsGetRequestOptions \<Rightarrow> string \<Rightarrow> string \<Rightarrow> string \<Rightarrow>
    string \<Rightarrow> TransactionsGetRequest" where
  "commandRequest newOptions accountID startDate endDate token =
     (let accountIDs = (if length accountID > 0 then [accountID] else []);
          options = newOptions\<lparr>AccountIds := Some accountIDs\<rparr>
      in \<lparr>StartDate = startDate, EndDate = endDate, Options = Some options,
          AccessToken = token\<rparr>)"

section \<open>The auth-retry wrapper\<close>

text \<open>
  \<^verbatim>\<open>plaid.ToPlaidError\<close> belongs to the Plaid client library and is the parameter
  \<open>ToPlaidError\<close>; of its result the wrapper reads \<open>ErrorCode\<close>. The action and
  \<^verbatim>\<open>linker.Relink(ctx, item.id, port)\<close> act on a state \<open>'s\<close> and return an error or \<^verbatim>\<open>nil\<close>.
  The wrapper's result comes with the list of the calls it made, in order.
\<close>

record PlaidError =
  ErrorCode :: string

datatype call = CallAction | CallRelink

definition WithRelinkOnAuthError :: "('e option \<Rightarrow> PlaidError) \<Rightarrow> ('s \<Rightarrow> 'e option \<times> 's) \<Rightarrow>
    ('s \<Rightarrow> 'e option \<times> 's) \<Rightarrow> 's \<Rightarrow> 'e option \<times> call list \<times> 's" where
  "WithRelinkOnAuthError ToPlaidError Relink action s =
     (let (err, s1) = action s;
          e = ToPlaidError err
      in if ErrorCode e = ''ITEM_LOGIN_REQUIRED'' then
           (let (err', s2) = Relink s1
            in if err' \<noteq> None then (err', [CallAction, CallRelink], s2)
               else (let (err'', s3) = action s2
                     in (err'', [CallAction, CallRelink, CallAction], s3)))
         else (err, [CallAction], s1))"

section \<open>The callback handlers of the link broker\<close>

text \<open>
  A request as the handlers see it: the method, and the form after \<^verbatim>\<open>r.ParseForm()\<close>.
  \<^verbatim>\<open>url.Values\<close> maps a field to its values; \<^verbatim>\<open>Get\<close> is the first value, or the empty
  string when the field has none.
\<close>

record Request =
  Method :: string
  Form :: "(string \<times> string list) list"

definition Get :: "(string \<times> string list) list \<Rightarrow> string \<Rightarrow> string" where
  "Get v key = (case map_of v key of None \<Rightarrow> [] | Some vs \<Rightarrow> (case vs of [] \<Rightarrow> [] | x # _ \<Rightarrow> x))"

text \<open>
  What a handler does, in order: it sends on one of the linker's three channels, writes
  to the response, or renders a page around the link token. The channels are unbuffered,
  so a send waits for the receiver; the list is what the handler does when no send waits
  forever. An \<^verbatim>\<open>error\<close> made by \<^verbatim>\<open>errors.New\<close> is its message.
\<close>

datatype effect =
  SendResults string
| SendRelinkResults bool
| SendErrors string
| Write string
| Execute string string

definition handleLink :: "string \<Rightarrow> Request \<Rightarrow> effect list" where
  "handleLink linkToken r =
     (if Method r = ''GET'' then [Execute ''link'' linkToken]
      else if Method r = ''POST'' then
        (let token = Get (Form r) ''public_token''
         in (if token \<noteq> [] then [SendResults token]
             else [SendErrors ''Empty public_token'']) @ [Write ''ok''])
      else [SendErrors ''Invalid HTTP method''])"

definition handleRelink :: "string \<Rightarrow> Request \<Rightarrow> effect list" where
  "handleRelink linkToken r =
     (if Method r = ''GET'' then [Execute ''relink'' linkToken]
      else if Method r = ''POST'' then
        (let err = Get (Form r) ''error''
         in (if err \<noteq> [] then [SendErrors err]
             else [SendRelinkResults True]) @ [Write ''ok''])
      else [SendErrors ''Invalid HTTP method''])"

section \<open>Example data\<close>

text \<open>
  One account on 1 July 2024 at noon UTC, so that the cutoff is 1 June 2024 at noon. The
  source holds \<open>A1\<close> (now pending), \<open>A4\<close> (new) and \<open>A5\<close> (unchanged); the mirror holds
  \<open>A1\<close>, \<open>A5\<close>, and two rows the source no longer has: \<open>A2\<close>, 40 days old, and \<open>A3\<close>,
  5 days old. \<open>exampleSource\<close> is the source as \<^verbatim>\<open>Sync\<close> arranges it from
  \<open>exampleTransactions\<close>; a transaction without a location has the address of one space.
\<close>

definition exampleRow :: "string \<Rightarrow> string \<Rightarrow> bool \<Rightarrow> string \<Rightarrow> string \<Rightarrow> TransactionRecord" where
  "exampleRow rowID plaidID pending date address =
     \<lparr>ID = rowID,
      Fields = \<lparr>PlaidID = plaidID, AccountID = ''acct'', AccountIDLink = [''acct''], Amount = 0,
        Name = ''coffee'', MerchantName = [], Pending = pending, DateTime = date,
        PlaidCategory1 = [], PlaidCategory2 = [], PlaidCategory3 = [], Address = address,
        CategoryLookup = []\<rparr>,
      Typecast = True\<rparr>"

definition exampleSource :: "TransactionRecord gomap" where
  "exampleSource =
     [(''A1'', exampleRow ''A1'' ''A1'' True ''2024-06-20'' ''1 Main St''),
      (''A4'', exampleRow ''A4'' ''A4'' False ''2024-06-28'' '' ''),
      (''A5'', exampleRow ''A5'' ''A5'' False ''2024-06-10'' '' '')]"

definition exampleTransaction :: "string \<Rightarrow> bool \<Rightarrow> string \<Rightarrow> string \<Rightarrow> string \<Rightarrow> Transaction" where
  "exampleTransaction plaidID pending date street city =
     \<lparr>Transaction.ID = plaidID, Transaction.AccountID = ''acct'', Transaction.Amount = 0,
      Transaction.Name = ''coffee'', Transaction.MerchantName = [], Transaction.Pending = pending,
      Date = date, Category = [], Location = \<lparr>Location.Address = street, City = city\<rparr>\<rparr>"

definition exampleTransactions :: "Transaction list" where
  "exampleTransactions =
     [exampleTransaction ''A1'' True ''2024-06-20'' ''1 Main'' ''St'',
      exampleTransaction ''A4'' False ''2024-06-28'' [] [],
      exampleTransaction ''A5'' False ''2024-06-10'' [] []]"

definition exampleMirror :: "TransactionRecord gomap" where
  "exampleMirror =
     [(''A1'', exampleRow ''recA1'' ''A1'' False ''2024-06-20'' ''1 Main St''),
      (''A2'', exampleRow ''recA2'' ''A2'' False ''2024-05-22'' '' ''),
      (''A3'', exampleRow ''recA3'' ''A3'' True ''2024-06-26'' '' ''),
      (''A5'', exampleRow ''recA5'' ''A5'' False ''2024-06-10'' '' '')]"

definition exampleCutoff :: time where
  "exampleCutoff = 1717243200000000000"

definition examplePlan :: AccountUpdate where
  "examplePlan =
     \<lparr>ToCreate = [exampleRow ''A4'' ''A4'' False ''2024-06-28'' '' ''],
      ToDelete = [exampleRow ''recA3'' ''A3'' True ''2024-06-26'' '' ''],
      ToUpdate = [exampleRow ''recA1'' ''A1'' True ''2024-06-20'' ''1 Main St'']\<rparr>"

definition exampleMirror_malformed :: "TransactionRecord gomap" where
  "exampleMirror_malformed =
     [(''A1'', exampleRow ''recA1'' ''A1'' False ''2024-06-20'' ''1 Main St''),
      (''A2'', exampleRow ''recA2'' ''A2'' False ''22/05/2024'' '' ''),
      (''A3'', exampleRow ''recA3'' ''A3'' True ''2024-06-26'' '' '')]"

text \<open>
  For the fetcher: the options with the API's defaults filled in, the options with nothing
  filled in, the request a command builds from the former, and a server that pages like
  \<open>pagedServer\<close>, counts the requests it has served and fails the one numbered \<open>k\<close>.
\<close>

definition exampleOptions :: TransactionsGetRequestOptions where
  "exampleOptions = \<lparr>AccountIds = None, Count = Some 100, Offset = Some 0\<rparr>"

definition nilOptions :: TransactionsGetRequestOptions where
  "nilOptions = \<lparr>AccountIds = None, Count = None, Offset = None\<rparr>"

definition exampleRequest :: TransactionsGetRequest where
  "exampleRequest = commandRequest exampleOptions [] ''2024-05-24'' ''2024-07-01'' ''access-token''"

definition failingAt :: "nat \<Rightarrow> 'tx list \<Rightarrow> (nat, string, 'tx) execute" where
  "failingAt k recs req served =
     (if served = k then (Inl ''INTERNAL_SERVER_ERROR'', Suc served)
      else (fst (pagedServer recs req served), Suc served))"

text \<open>
  For the wrapper: errors are their Plaid error codes, the state counts the calls of the
  action; one action finds the login expired on its first call only, the other on every
  call.
\<close>

definition codeOf :: "string option \<Rightarrow> PlaidError" where
  "codeOf err = \<lparr>ErrorCode = (case err of None \<Rightarrow> [] | Some c \<Rightarrow> c)\<rparr>"

definition expiredOnce :: "nat \<Rightarrow> string option \<times> nat" where
  "expiredOnce calls = (if calls = 0 then Some ''ITEM_LOGIN_REQUIRED'' else None, Suc calls)"

definition expiredAlways :: "nat \<Rightarrow> string option \<times> nat" where
  "expiredAlways calls = (Some ''ITEM_LOGIN_REQUIRED'', Suc calls)"

definition relinkSucceeds :: "nat \<Rightarrow> string option \<times> nat" where
  "relinkSucceeds calls = (None, calls)"

definition relinkFails :: "nat \<Rightarrow> string option \<times> nat" where
  "relinkFails calls = (Some ''user_exit'', calls)"

text \<open>For the handlers: a POST with the given form.\<close>

definition examplePost :: "(string \<times> string list) list \<Rightarrow> Request" where
  "examplePost form = \<lparr>Method = ''POST'', Form = form\<rparr>"

section \<open>Properties of the reconciliation engine\<close>

subsection \<open>What the two loops compute\<close>

lemma sourceLoop_ids:
  "snd (sourceLoop ps a (u, ids)) = ids \<union> fst ` set ps"
  by (induction ps a "(u, ids)" arbitrary: u ids rule: sourceLoop.induct)
     (auto split: option.splits)

lemma sourceLoop_ToDelete:
  "ToDelete (fst (sourceLoop ps a (u, ids))) = ToDelete u"
  by (induction ps a "(u, ids)" arbitrary: u ids rule: sourceLoop.induct)
     (auto split: option.splits)

lemma sourceLoop_ToCreate:
  "ToCreate (fst (sourceLoop ps a (u, ids))) =
     ToCreate u @ map snd (filter (\<lambda>(k, t). map_of a k = None) ps)"
  by (induction ps a "(u, ids)" arbitrary: u ids rule: sourceLoop.induct)
     (auto split: option.splits)

lemma sourceLoop_ToUpdate:
  "ToUpdate (fst (sourceLoop ps a (u, ids))) =
     ToUpdate u @ List.map_filter (\<lambda>(k, t).
        case map_of a k of None \<Rightarrow> None
        | Some existing \<Rightarrow>
            if Pending (Fields existing) \<noteq> Pending (Fields t) \<or>
               Address (Fields existing) \<noteq> Address (Fields t)
            then Some (t\<lparr>ID := ID existing\<rparr>) else None) ps"
  by (induction ps a "(u, ids)" arbitrary: u ids rule: sourceLoop.induct)
     (auto split: option.splits simp: List.map_filter_simps)

lemma mirrorLoop_frame:
  "mirrorLoop parse c ids a u = Inr u' \<Longrightarrow> ToCreate u' = ToCreate u \<and> ToUpdate u' = ToUpdate u"
  by (induction parse c ids a u rule: mirrorLoop.induct)
     (auto split: if_splits sum.splits)

lemma mirrorLoop_ToDelete:
  "mirrorLoop parse c ids a u = Inr u' \<Longrightarrow>
     ToDelete u' = ToDelete u @ map snd (filter (\<lambda>(k, t). k \<notin> ids \<and>
        (case parse (DateTime (Fields t)) of Inl _ \<Rightarrow> False | Inr tm \<Rightarrow> After tm c)) a)"
  by (induction parse c ids a u rule: mirrorLoop.induct)
     (auto split: if_splits sum.splits)

lemma mirrorLoop_parsed:
  "mirrorLoop parse c ids a u = Inr u' \<Longrightarrow> (k, t) \<in> set a \<Longrightarrow> k \<notin> ids \<Longrightarrow>
     \<exists>tm. parse (DateTime (Fields t)) = Inr tm"
  by (induction parse c ids a u rule: mirrorLoop.induct)
     (auto split: if_splits sum.splits)

lemma mirrorLoop_returns:
  "(\<And>k t. (k, t) \<in> set a \<Longrightarrow> k \<notin> ids \<Longrightarrow> \<exists>tm. parse (DateTime (Fields t)) = Inr tm) \<Longrightarrow>
     \<exists>u'. mirrorLoop parse c ids a u = Inr u'"
  by (induction parse c ids a u rule: mirrorLoop.induct)
     (fastforce split: if_splits sum.splits)+

lemma mirrorLoop_panics:
  "(k, t) \<in> set a \<Longrightarrow> k \<notin> ids \<Longrightarrow> parse (DateTime (Fields t)) = Inl e \<Longrightarrow>
     \<exists>e'. mirrorLoop parse c ids a u = Inl e'"
  by (induction parse c ids a u rule: mirrorLoop.induct)
     (auto split: if_splits sum.splits)

lemma keyedByPlaidID_D: "keyedByPlaidID m \<Longrightarrow> (k, t) \<in> set m \<Longrightarrow> PlaidID (Fields t) = k"
  by (auto simp: keyedByPlaidID_def list_all_iff)

lemma updateAccount_unfold:
  "updateAccount parse c p a =
     mirrorLoop parse c (fst ` set p) a
       (fst (sourceLoop p a (\<lparr>ToCreate = [], ToDelete = [], ToUpdate = []\<rparr>, {})))"
proof -
  obtain u ids where s: "sourceLoop p a (\<lparr>ToCreate = [], ToDelete = [], ToUpdate = []\<rparr>, {}) = (u, ids)"
    by (cases "sourceLoop p a (\<lparr>ToCreate = [], ToDelete = [], ToUpdate = []\<rparr>, {})")
  have "ids = fst ` set p"
    using sourceLoop_ids [of p a "\<lparr>ToCreate = [], ToDelete = [], ToUpdate = []\<rparr>" "{}"] s by simp
  then show ?thesis
    by (simp add: updateAccount_def s)
qed

lemma updateAccount_ToCreate:
  assumes "updateAccount parse c p a = Inr u"
  shows "ToCreate u = map snd (filter (\<lambda>(k, t). map_of a k = None) p)"
  using assms mirrorLoop_frame [of parse c "fst ` set p" a _ u]
  by (simp add: updateAccount_unfold sourceLoop_ToCreate)

lemma updateAccount_ToUpdate:
  assumes "updateAccount parse c p a = Inr u"
  shows "ToUpdate u = List.map_filter (\<lambda>(k, t).
        case map_of a k of None \<Rightarrow> None
        | Some existing \<Rightarrow>
            if Pending (Fields existing) \<noteq> Pending (Fields t) \<or>
               Address (Fields existing) \<noteq> Address (Fields t)
            then Some (t\<lparr>ID := ID existing\<rparr>) else None) p"
  using assms mirrorLoop_frame [of parse c "fst ` set p" a _ u]
  by (simp add: updateAccount_unfold sourceLoop_ToUpdate)

lemma updateAccount_ToDelete:
  assumes "updateAccount parse c p a = Inr u"
  shows "ToDelete u = map snd (filter (\<lambda>(k, t). k \<notin> fst ` set p \<and>
        (case parse (DateTime (Fields t)) of Inl _ \<Rightarrow> False | Inr tm \<Rightarrow> After tm c)) a)"
  using assms mirrorLoop_ToDelete [of parse c "fst ` set p" a _ u]
  by (simp add: updateAccount_unfold sourceLoop_ToDelete)

lemma in_ToCreate_iff:
  assumes "updateAccount parse c p a = Inr u"
  shows "r \<in> set (ToCreate u) \<longleftrightarrow> (\<exists>k. (k, r) \<in> set p \<and> map_of a k = None)"
  by (force simp: updateAccount_ToCreate [OF assms] image_iff)

lemma set_map_filter_iff:
  "y \<in> set (List.map_filter f xs) \<longleftrightarrow> (\<exists>x \<in> set xs. f x = Some y)"
  by (induction xs) (auto split: option.splits)

lemma in_ToUpdate_iff:
  assumes "updateAccount parse c p a = Inr u"
  shows "r \<in> set (ToUpdate u) \<longleftrightarrow>
     (\<exists>k t existing. (k, t) \<in> set p \<and> map_of a k = Some existing \<and>
        (Pending (Fields existing) \<noteq> Pending (Fields t) \<or>
         Address (Fields existing) \<noteq> Address (Fields t)) \<and>
        r = t\<lparr>ID := ID existing\<rparr>)"
proof
  assume "r \<in> set (ToUpdate u)"
  then obtain x where x: "x \<in> set p" and fx: "(case x of (k, t) \<Rightarrow>
        case map_of a k of None \<Rightarrow> None
        | Some existing \<Rightarrow>
            if Pending (Fields existing) \<noteq> Pending (Fields t) \<or>
               Address (Fields existing) \<noteq> Address (Fields t)
            then Some (t\<lparr>ID := ID existing\<rparr>) else None) = Some r"
    unfolding updateAccount_ToUpdate [OF assms] set_map_filter_iff by blast
  obtain k t where kt: "x = (k, t)" by (cases x)
  from fx kt obtain existing where "map_of a k = Some existing"
      "Pending (Fields existing) \<noteq> Pending (Fields t) \<or>
       Address (Fields existing) \<noteq> Address (Fields t)"
      "r = t\<lparr>ID := ID existing\<rparr>"
    by (auto split: option.splits if_splits)
  with x kt show "\<exists>k t existing. (k, t) \<in> set p \<and> map_of a k = Some existing \<and>
        (Pending (Fields existing) \<noteq> Pending (Fields t) \<or>
         Address (Fields existing) \<noteq> Address (Fields t)) \<and>
        r = t\<lparr>ID := ID existing\<rparr>"
    by blast
next
  assume "\<exists>k t existing. (k, t) \<in> set p \<and> map_of a k = Some existing \<and>
        (Pending (Fields existing) \<noteq> Pending (Fields t) \<or>
         Address (Fields existing) \<noteq> Address (Fields t)) \<and>
        r = t\<lparr>ID := ID existing\<rparr>"
  then obtain k t existing where h: "(k, t) \<in> set p" "map_of a k = Some existing"
      "Pending (Fields existing) \<noteq> Pending (Fields t) \<or>
       Address (Fields existing) \<noteq> Address (Fields t)"
      "r = t\<lparr>ID := ID existing\<rparr>"
    by blast
  show "r \<in> set (ToUpdate u)"
    unfolding updateAccount_ToUpdate [OF assms] set_map_filter_iff
    by (rule bexI [OF _ h(1)]) (use h in auto)
qed

lemma in_ToDelete_iff:
  assumes "updateAccount parse c p a = Inr u"
  shows "r \<in> set (ToDelete u) \<longleftrightarrow>
     (\<exists>k tm. (k, r) \<in> set a \<and> k \<notin> fst ` set p \<and>
        parse (DateTime (Fields r)) = Inr tm \<and> After tm c)"
  by (force simp: updateAccount_ToDelete [OF assms] image_iff split: sum.splits)

lemma updateAccount_returns_iff:
  "(\<exists>u. updateAccount parse c p a = Inr u) \<longleftrightarrow>
   (\<forall>k t. (k, t) \<in> set a \<and> k \<notin> fst ` set p \<longrightarrow> (\<exists>tm. parse (DateTime (Fields t)) = Inr tm))"
  unfolding updateAccount_unfold
  using mirrorLoop_parsed mirrorLoop_returns by (metis (no_types, lifting))

subsection \<open>The maps that \<^verbatim>\<open>Sync\<close> hands to the engine\<close>

text \<open>
  Every per-account map built by \<^verbatim>\<open>byAccountIDbyTransactionID\<close> has distinct keys, files
  each record under its own \<open>PlaidID\<close>, and holds records of that account only.
\<close>

lemma update_entry:
  "(a, m) \<in> set (AList.update k v al) \<Longrightarrow> (a = k \<and> m = v) \<or> (a, m) \<in> set al"
  by (induction al) (auto split: if_splits)

lemma arrange_invariant:
  assumes "distinct (map fst ret)"
      and "\<And>a m. (a, m) \<in> set ret \<Longrightarrow> distinct (map fst m) \<and>
             (\<forall>k t. (k, t) \<in> set m \<longrightarrow> PlaidID (Fields t) = k \<and> AccountID (Fields t) = a)"
  shows "distinct (map fst (arrange ts ret)) \<and>
         (\<forall>a m. (a, m) \<in> set (arrange ts ret) \<longrightarrow> distinct (map fst m) \<and>
             (\<forall>k t. (k, t) \<in> set m \<longrightarrow> PlaidID (Fields t) = k \<and> AccountID (Fields t) = a))"
  using assms
proof (induction ts arbitrary: ret)
  case Nil
  then show ?case by simp
next
  case (Cons t ts)
  let ?acc = "AccountID (Fields t)"
  let ?byID = "index ret ?acc"
  let ?ret' = "AList.update ?acc (AList.update (PlaidID (Fields t)) t ?byID) ret"
  have byID: "distinct (map fst ?byID) \<and>
      (\<forall>k t'. (k, t') \<in> set ?byID \<longrightarrow> PlaidID (Fields t') = k \<and> AccountID (Fields t') = ?acc)"
  proof (cases "map_of ret ?acc")
    case None
    then show ?thesis by (simp add: index_def)
  next
    case (Some m)
    then have "(?acc, m) \<in> set ret" by (rule map_of_SomeD)
    have eq: "?byID = m" using Some by (simp add: index_def)
    show ?thesis unfolding eq by (rule Cons.prems(2) [OF \<open>(?acc, m) \<in> set ret\<close>])
  qed
  have d: "distinct (map fst ?ret')"
    using Cons.prems(1) by (rule distinct_update)
  have e: "distinct (map fst m) \<and>
             (\<forall>k t'. (k, t') \<in> set m \<longrightarrow> PlaidID (Fields t') = k \<and> AccountID (Fields t') = a)"
    if "(a, m) \<in> set ?ret'" for a m
  proof -
    from update_entry [OF that] consider
      "a = ?acc" "m = AList.update (PlaidID (Fields t)) t ?byID" | "(a, m) \<in> set ret"
      by blast
    then show ?thesis
    proof cases
      case 1
      have "distinct (map fst m)"
        unfolding 1(2) using byID by (simp add: distinct_update)
      moreover have "PlaidID (Fields t') = k \<and> AccountID (Fields t') = a"
        if "(k, t') \<in> set m" for k t'
      proof -
        from update_entry [OF that [unfolded 1(2)]]
        have "(k = PlaidID (Fields t) \<and> t' = t) \<or> (k, t') \<in> set ?byID" .
        then show ?thesis using byID 1(1) by blast
      qed
      ultimately show ?thesis by blast
    next
      case 2
      then show ?thesis using Cons.prems(2) by blast
    qed
  qed
  show ?case
    unfolding arrange.simps Let_def by (rule Cons.IH [OF d e])
qed

lemma byAccountIDbyTransactionID_arranged:
  "distinct (map fst (index (byAccountIDbyTransactionID ts) a)) \<and>
   keyedByPlaidID (index (byAccountIDbyTransactionID ts) a) \<and>
   (\<forall>(k, t) \<in> set (index (byAccountIDbyTransactionID ts) a). AccountID (Fields t) = a)"
proof (cases "map_of (byAccountIDbyTransactionID ts) a")
  case None
  then show ?thesis by (simp add: index_def keyedByPlaidID_def)
next
  case (Some m)
  then have "(a, m) \<in> set (arrange ts [])"
    unfolding byAccountIDbyTransactionID_def by (rule map_of_SomeD)
  moreover have "distinct (map fst (arrange ts [])) \<and>
         (\<forall>a m. (a, m) \<in> set (arrange ts []) \<longrightarrow> distinct (map fst m) \<and>
             (\<forall>k t. (k, t) \<in> set m \<longrightarrow> PlaidID (Fields t) = k \<and> AccountID (Fields t) = a))"
    by (rule arrange_invariant) simp_all
  ultimately have "distinct (map fst m) \<and>
     (\<forall>k t. (k, t) \<in> set m \<longrightarrow> PlaidID (Fields t) = k \<and> AccountID (Fields t) = a)"
    by blast
  then have "distinct (map fst m)"
      and "\<And>k t. (k, t) \<in> set m \<Longrightarrow> PlaidID (Fields t) = k"
      and "\<And>k t. (k, t) \<in> set m \<Longrightarrow> AccountID (Fields t) = a"
    by blast+
  moreover have "index (byAccountIDbyTransactionID ts) a = m"
    using Some by (simp add: index_def)
  ultimately show ?thesis
    unfolding keyedByPlaidID_def list_all_iff by (auto simp only: case_prod_beta fst_conv snd_conv split_paired_all)
qed

subsection \<open>The example, evaluated\<close>

lemma parseDate_examples:
  "parseDate ''2024-05-22'' = Inr 1716336000000000000"
  "parseDate ''2024-06-26'' = Inr 1719360000000000000"
  "parseDate ''22/05/2024'' = Inl (ParseError ''22/05/2024'')"
  by (simp_all add: parseDate_def isDigit_def daysIn_def daysSinceEpoch_def isLeap_def)

lemma example_plan:
  "updateAccount parseDate exampleCutoff exampleSource exampleMirror = Inr examplePlan"
  by (simp add: updateAccount_def exampleSource_def exampleMirror_def exampleCutoff_def
      examplePlan_def exampleRow_def parseDate_examples After_def)

lemma example_members:
  "(''A2'', exampleRow ''recA2'' ''A2'' False ''2024-05-22'' '' '') \<in> set exampleMirror"
  "(''A3'', exampleRow ''recA3'' ''A3'' True ''2024-06-26'' '' '') \<in> set exampleMirror"
  "''A2'' \<notin> fst ` set exampleSource"
  "''A3'' \<notin> fst ` set exampleSource"
  "(''A4'', exampleRow ''A4'' ''A4'' False ''2024-06-28'' '' '') \<in> set exampleSource"
  "(''A5'', exampleRow ''A5'' ''A5'' False ''2024-06-10'' '' '') \<in> set exampleSource"
  "map_of exampleMirror ''A4'' = None"
  "map_of exampleMirror ''A5'' = Some (exampleRow ''recA5'' ''A5'' False ''2024-06-10'' '' '')"
  "map_of exampleMirror ''A1'' = Some (exampleRow ''recA1'' ''A1'' False ''2024-06-20'' ''1 Main St'')"
  by (simp_all add: exampleMirror_def exampleSource_def)

lemma example_keyed:
  "distinct (map fst exampleSource)" "keyedByPlaidID exampleSource" "keyedByPlaidID exampleMirror"
  by (simp_all add: exampleMirror_def exampleSource_def keyedByPlaidID_def exampleRow_def)

lemma example_converted:
  "map toRecord exampleTransactions = map snd exampleSource"
  by (simp add: exampleTransactions_def exampleTransaction_def toRecord_def tagAt_def
      exampleSource_def exampleRow_def)

lemma example_arranged:
  "byAccountIDbyTransactionID (map toRecord exampleTransactions) = [(''acct'', exampleSource)]"
  "byAccountIDbyTransactionID (map snd exampleMirror_malformed) = [(''acct'', exampleMirror_malformed)]"
  unfolding example_converted
  by (simp_all add: byAccountIDbyTransactionID_def exampleSource_def exampleMirror_malformed_def
      exampleRow_def index_def)

text \<open>
  The older copy of the engine on the same rows: \<open>A1\<close> is both created and deleted, and
  the 40 days old \<open>A2\<close> is deleted.
\<close>

lemma updateAccount_old_example:
  "updateAccount_old exampleSource exampleMirror =
     ([exampleRow ''A1'' ''A1'' True ''2024-06-20'' ''1 Main St'',
       exampleRow ''A4'' ''A4'' False ''2024-06-28'' '' ''],
      [exampleRow ''recA1'' ''A1'' True ''2024-06-20'' ''1 Main St'',
       exampleRow ''recA2'' ''A2'' False ''2024-05-22'' '' '',
       exampleRow ''recA3'' ''A3'' True ''2024-06-26'' '' ''])"
  by (simp add: updateAccount_old_def exampleSource_def exampleMirror_def exampleRow_def)

subsection \<open>Cutoff guard\<close>

text \<open>
  Claim C1. Whenever \<^verbatim>\<open>updateAccount\<close> returns a plan for a source and a mirror, a mirror
  record whose key the source does not have has a date that parses, and it is in
  \<open>ToDelete\<close> exactly when that date is after the cutoff: a date before the cutoff keeps the
  record out of \<open>ToDelete\<close>, a date after it puts the record in.
\<close>

theorem cutoff_guard:
  assumes "updateAccount parse cutoff plaidTs airtableTs = Inr u"
      and "(k, t) \<in> set airtableTs" and "k \<notin> fst ` set plaidTs"
  shows "\<exists>tm. parse (DateTime (Fields t)) = Inr tm \<and>
           (tm < cutoff \<longrightarrow> t \<notin> set (ToDelete u)) \<and>
           (After tm cutoff \<longrightarrow> t \<in> set (ToDelete u)) \<and>
           (t \<in> set (ToDelete u) \<longleftrightarrow> After tm cutoff)"
proof -
  obtain tm where tm: "parse (DateTime (Fields t)) = Inr tm"
    using assms mirrorLoop_parsed unfolding updateAccount_unfold by blast
  have "t \<in> set (ToDelete u) \<longleftrightarrow> After tm cutoff"
    using assms(2,3) tm by (auto simp: in_ToDelete_iff [OF assms(1)])
  with tm show ?thesis by (auto simp: After_def)
qed

theorem cutoff_guard_witness:
  "updateAccount parseDate exampleCutoff exampleSource exampleMirror = Inr examplePlan \<and>
   (''A2'', exampleRow ''recA2'' ''A2'' False ''2024-05-22'' '' '') \<in> set exampleMirror \<and>
   ''A2'' \<notin> fst ` set exampleSource \<and>
   parseDate ''2024-05-22'' = Inr 1716336000000000000 \<and>
   1716336000000000000 < exampleCutoff \<and>
   exampleRow ''recA2'' ''A2'' False ''2024-05-22'' '' '' \<notin> set (ToDelete examplePlan) \<and>
   (''A3'', exampleRow ''recA3'' ''A3'' True ''2024-06-26'' '' '') \<in> set exampleMirror \<and>
   ''A3'' \<notin> fst ` set exampleSource \<and>
   parseDate ''2024-06-26'' = Inr 1719360000000000000 \<and>
   After 1719360000000000000 exampleCutoff \<and>
   exampleRow ''recA3'' ''A3'' True ''2024-06-26'' '' '' \<in> set (ToDelete examplePlan)"
  using cutoff_guard [OF example_plan example_members(1) example_members(3)]
        cutoff_guard [OF example_plan example_members(2) example_members(4)]
        example_plan example_members(1-4)
  by (simp add: parseDate_examples exampleRow_def exampleCutoff_def After_def)

subsection \<open>Disjointness\<close>

text \<open>
  Claim C2. In a plan that \<^verbatim>\<open>updateAccount\<close> returns for maps keyed by \<open>PlaidID\<close>, no record
  key (\<open>AccountID\<close>, \<open>PlaidID\<close>) occurs in two of \<open>ToCreate\<close>, \<open>ToUpdate\<close> and \<open>ToDelete\<close>.
\<close>

theorem plan_disjoint:
  assumes "updateAccount parse cutoff plaidTs airtableTs = Inr u"
      and "keyedByPlaidID plaidTs" and "keyedByPlaidID airtableTs"
  shows "recordKey ` set (ToCreate u) \<inter> recordKey ` set (ToUpdate u) = {} \<and>
         recordKey ` set (ToCreate u) \<inter> recordKey ` set (ToDelete u) = {} \<and>
         recordKey ` set (ToUpdate u) \<inter> recordKey ` set (ToDelete u) = {}"
proof -
  have c: "PlaidID (Fields r) \<in> fst ` set plaidTs \<and> map_of airtableTs (PlaidID (Fields r)) = None"
    if "r \<in> set (ToCreate u)" for r
    using that keyedByPlaidID_D [OF assms(2)] by (force simp: in_ToCreate_iff [OF assms(1)])
  have up: "PlaidID (Fields r) \<in> fst ` set plaidTs \<and> map_of airtableTs (PlaidID (Fields r)) \<noteq> None"
    if "r \<in> set (ToUpdate u)" for r
    using that keyedByPlaidID_D [OF assms(2)] by (force simp: in_ToUpdate_iff [OF assms(1)])
  have d: "PlaidID (Fields r) \<notin> fst ` set plaidTs"
    if "r \<in> set (ToDelete u)" for r
    using that keyedByPlaidID_D [OF assms(3)] by (force simp: in_ToDelete_iff [OF assms(1)])
  have cu: "recordKey x \<noteq> recordKey y" if "x \<in> set (ToCreate u)" "y \<in> set (ToUpdate u)" for x y
    using c [OF that(1)] up [OF that(2)] by (auto simp: recordKey_def)
  have cd: "recordKey x \<noteq> recordKey y" if "x \<in> set (ToCreate u)" "y \<in> set (ToDelete u)" for x y
    using c [OF that(1)] d [OF that(2)] by (metis recordKey_def snd_conv)
  have ud: "recordKey x \<noteq> recordKey y" if "x \<in> set (ToUpdate u)" "y \<in> set (ToDelete u)" for x y
    using up [OF that(1)] d [OF that(2)] by (metis recordKey_def snd_conv)
  show ?thesis
    using cu cd ud by blast
qed

theorem plan_disjoint_witness:
  "updateAccount parseDate exampleCutoff exampleSource exampleMirror = Inr examplePlan \<and>
   keyedByPlaidID exampleSource \<and> keyedByPlaidID exampleMirror \<and>
   recordKey ` set (ToCreate examplePlan) = {(''acct'', ''A4'')} \<and>
   recordKey ` set (ToUpdate examplePlan) = {(''acct'', ''A1'')} \<and>
   recordKey ` set (ToDelete examplePlan) = {(''acct'', ''A3'')} \<and>
   recordKey ` set (ToCreate examplePlan) \<inter> recordKey ` set (ToUpdate examplePlan) = {} \<and>
   recordKey ` set (ToCreate examplePlan) \<inter> recordKey ` set (ToDelete examplePlan) = {} \<and>
   recordKey ` set (ToUpdate examplePlan) \<inter> recordKey ` set (ToDelete examplePlan) = {}"
  using plan_disjoint [OF example_plan example_keyed(2) example_keyed(3)] example_plan example_keyed
  by (simp add: examplePlan_def recordKey_def exampleRow_def)

subsection \<open>Completeness\<close>

text \<open>
  Claim C3. In a plan that \<^verbatim>\<open>updateAccount\<close> returns, every source record whose key the
  mirror does not have is in \<open>ToCreate\<close>, and the key of a source record whose mirror row has
  the same \<open>Pending\<close> flag and the same \<open>Address\<close> occurs neither in \<open>ToUpdate\<close> nor in
  \<open>ToDelete\<close>.
\<close>

theorem plan_complete:
  assumes "updateAccount parse cutoff plaidTs airtableTs = Inr u"
      and "distinct (map fst plaidTs)"
      and "keyedByPlaidID plaidTs" and "keyedByPlaidID airtableTs"
      and "(k, t) \<in> set plaidTs"
  shows "(map_of airtableTs k = None \<longrightarrow> t \<in> set (ToCreate u)) \<and>
         (\<forall>existing. map_of airtableTs k = Some existing \<and>
              Pending (Fields existing) = Pending (Fields t) \<and>
              Address (Fields existing) = Address (Fields t) \<longrightarrow>
            recordKey t \<notin> recordKey ` set (ToUpdate u) \<and>
            recordKey t \<notin> recordKey ` set (ToDelete u))"
proof (intro conjI allI impI)
  assume "map_of airtableTs k = None"
  with assms(5) show "t \<in> set (ToCreate u)"
    by (auto simp: in_ToCreate_iff [OF assms(1)])
next
  fix existing
  assume same: "map_of airtableTs k = Some existing \<and>
              Pending (Fields existing) = Pending (Fields t) \<and>
              Address (Fields existing) = Address (Fields t)"
  have kt: "PlaidID (Fields t) = k"
    using keyedByPlaidID_D [OF assms(3,5)] .
  show "recordKey t \<notin> recordKey ` set (ToUpdate u)"
  proof
    assume "recordKey t \<in> recordKey ` set (ToUpdate u)"
    then obtain r where r: "r \<in> set (ToUpdate u)" "recordKey r = recordKey t" by auto
    from r(1) obtain k' t' e' where
      k': "(k', t') \<in> set plaidTs" "map_of airtableTs k' = Some e'"
          "Pending (Fields e') \<noteq> Pending (Fields t') \<or> Address (Fields e') \<noteq> Address (Fields t')"
          "r = t'\<lparr>ID := ID e'\<rparr>"
      unfolding in_ToUpdate_iff [OF assms(1)] by blast
    have "k' = k"
      using keyedByPlaidID_D [OF assms(3) k'(1)] r(2) k'(4) kt by (simp add: recordKey_def)
    then have "t' = t"
      using k'(1) assms(2,5) by (metis eq_key_imp_eq_value)
    with k' \<open>k' = k\<close> same show False by auto
  qed
  show "recordKey t \<notin> recordKey ` set (ToDelete u)"
  proof
    assume "recordKey t \<in> recordKey ` set (ToDelete u)"
    then obtain r where r: "r \<in> set (ToDelete u)" "recordKey r = recordKey t" by auto
    from r(1) obtain k' where k': "(k', r) \<in> set airtableTs" "k' \<notin> fst ` set plaidTs"
      unfolding in_ToDelete_iff [OF assms(1)] by blast
    have "k' = k"
      using keyedByPlaidID_D [OF assms(4) k'(1)] r(2) kt by (simp add: recordKey_def)
    with k'(2) assms(5) show False by force
  qed
qed

theorem plan_complete_witness:
  "updateAccount parseDate exampleCutoff exampleSource exampleMirror = Inr examplePlan \<and>
   distinct (map fst exampleSource) \<and> keyedByPlaidID exampleSource \<and> keyedByPlaidID exampleMirror \<and>
   (''A4'', exampleRow ''A4'' ''A4'' False ''2024-06-28'' '' '') \<in> set exampleSource \<and>
   map_of exampleMirror ''A4'' = None \<and>
   exampleRow ''A4'' ''A4'' False ''2024-06-28'' '' '' \<in> set (ToCreate examplePlan) \<and>
   (''A5'', exampleRow ''A5'' ''A5'' False ''2024-06-10'' '' '') \<in> set exampleSource \<and>
   map_of exampleMirror ''A5'' = Some (exampleRow ''recA5'' ''A5'' False ''2024-06-10'' '' '') \<and>
   recordKey (exampleRow ''A5'' ''A5'' False ''2024-06-10'' '' '') \<notin> recordKey ` set (ToUpdate examplePlan) \<and>
   recordKey (exampleRow ''A5'' ''A5'' False ''2024-06-10'' '' '') \<notin> recordKey ` set (ToDelete examplePlan)"
  using plan_complete [OF example_plan example_keyed example_members(5)]
        plan_complete [OF example_plan example_keyed example_members(6)]
        example_plan example_keyed example_members(5-8)
  by (simp add: exampleRow_def)

subsection \<open>Update identity\<close>

text \<open>
  Claim C4. Every record of \<open>ToUpdate\<close> is a source record whose \<open>ID\<close> has been replaced by
  the \<open>ID\<close> of the mirror row stored under the same key; fields and \<open>Typecast\<close> are the
  source's.
\<close>

theorem update_identity:
  assumes "updateAccount parse cutoff plaidTs airtableTs = Inr u"
      and "r \<in> set (ToUpdate u)"
  shows "\<exists>k t existing. (k, t) \<in> set plaidTs \<and> map_of airtableTs k = Some existing \<and>
           ID r = ID existing \<and> Fields r = Fields t \<and> Typecast r = Typecast t"
  using assms(2) unfolding in_ToUpdate_iff [OF assms(1)] by force

theorem update_identity_witness:
  "updateAccount parseDate exampleCutoff exampleSource exampleMirror = Inr examplePlan \<and>
   exampleRow ''recA1'' ''A1'' True ''2024-06-20'' ''1 Main St'' \<in> set (ToUpdate examplePlan) \<and>
   map_of exampleMirror ''A1'' = Some (exampleRow ''recA1'' ''A1'' False ''2024-06-20'' ''1 Main St'') \<and>
   ID (exampleRow ''recA1'' ''A1'' True ''2024-06-20'' ''1 Main St'') = ''recA1'' \<and>
   (\<exists>k t existing. (k, t) \<in> set exampleSource \<and> map_of exampleMirror k = Some existing \<and>
      ID (exampleRow ''recA1'' ''A1'' True ''2024-06-20'' ''1 Main St'') = ID existing \<and>
      Fields (exampleRow ''recA1'' ''A1'' True ''2024-06-20'' ''1 Main St'') = Fields t \<and>
      Typecast (exampleRow ''recA1'' ''A1'' True ''2024-06-20'' ''1 Main St'') = Typecast t)"
proof -
  have m: "exampleRow ''recA1'' ''A1'' True ''2024-06-20'' ''1 Main St'' \<in> set (ToUpdate examplePlan)"
    by (simp add: examplePlan_def)
  show ?thesis
    using update_identity [OF example_plan m] example_plan m example_members(9)
    by (simp add: exampleRow_def)
qed

subsection \<open>A date that does not parse\<close>

lemma updateAccount_panics:
  assumes "(k, t) \<in> set airtableTs" and "k \<notin> fst ` set plaidTs"
      and "parse (DateTime (Fields t)) = Inl e"
  shows "\<exists>e'. updateAccount parse cutoff plaidTs airtableTs = Inl e'"
  unfolding updateAccount_unfold using assms by (rule mirrorLoop_panics)

lemma applyEach_succeeds:
  assumes "\<And>r s. fst (call r s) = None"
  shows "fst (applyEach call ts st) = None"
proof (induction ts arbitrary: st)
  case Nil
  show ?case by simp
next
  case (Cons r ts)
  obtain st' where "call r st = (None, st')"
    using assms [of r st] by (cases "call r st") auto
  then show ?case using Cons.IH [of st'] by simp
qed

lemma syncAccounts_not_completed:
  assumes "(accountID, transactions) \<in> set plaidArranged"
      and "\<exists>e'. updateAccount parse (cutoff accountID) transactions
                   (index airtableArranged accountID) = Inl e'"
  shows "fst (syncAccounts parse cutoff tableDelete tableCreate tableUpdate
                plaidArranged airtableArranged st) \<noteq> Inr None"
  using assms(1)
proof (induction plaidArranged arbitrary: st)
  case Nil
  then show ?case by simp
next
  case (Cons entry rest)
  obtain a ts where entry: "entry = (a, ts)" by (cases entry)
  show ?case
  proof (cases "updateAccount parse (cutoff a) ts (index airtableArranged a)")
    case (Inl p)
    then show ?thesis by (simp add: entry)
  next
    case (Inr updates)
    with assms(2) have "(a, ts) \<noteq> (accountID, transactions)" by auto
    with Cons.prems entry have "(accountID, transactions) \<in> set rest" by auto
    from Cons.IH [OF this] show ?thesis
      by (simp add: entry Inr split: prod.splits option.splits)
  qed
qed

lemma syncAccounts_panics:
  assumes "(accountID, transactions) \<in> set plaidArranged"
      and "\<exists>e'. updateAccount parse (cutoff accountID) transactions
                   (index airtableArranged accountID) = Inl e'"
      and "\<And>r s. fst (tableDelete r s) = None"
      and "\<And>r s. fst (tableCreate r s) = None"
      and "\<And>r s. fst (tableUpdate r s) = None"
  shows "\<exists>e'. fst (syncAccounts parse cutoff tableDelete tableCreate tableUpdate
                plaidArranged airtableArranged st) = Inl e'"
  using assms(1)
proof (induction plaidArranged arbitrary: st)
  case Nil
  then show ?case by simp
next
  case (Cons entry rest)
  obtain a ts where entry: "entry = (a, ts)" by (cases entry)
  show ?case
  proof (cases "updateAccount parse (cutoff a) ts (index airtableArranged a)")
    case (Inl p)
    then show ?thesis by (simp add: entry)
  next
    case (Inr updates)
    with assms(2) have "(a, ts) \<noteq> (accountID, transactions)" by auto
    with Cons.prems entry have mem: "(accountID, transactions) \<in> set rest" by auto
    obtain st1 where d: "applyEach tableDelete (ToDelete updates) st = (None, st1)"
      using applyEach_succeeds [of tableDelete "ToDelete updates" st, OF assms(3)]
      by (cases "applyEach tableDelete (ToDelete updates) st") auto
    obtain st2 where c: "applyEach tableCreate (ToCreate updates) st1 = (None, st2)"
      using applyEach_succeeds [of tableCreate "ToCreate updates" st1, OF assms(4)]
      by (cases "applyEach tableCreate (ToCreate updates) st1") auto
    obtain st3 where u: "applyEach tableUpdate (ToUpdate updates) st2 = (None, st3)"
      using applyEach_succeeds [of tableUpdate "ToUpdate updates" st2, OF assms(5)]
      by (cases "applyEach tableUpdate (ToUpdate updates) st2") auto
    from Cons.IH [OF mem, of st3] show ?thesis
      by (simp add: entry Inr d c u)
  qed
qed

text \<open>
  Claim C9. When an account of the source has a mirror row that the source lacks and whose
  date does not parse, \<^verbatim>\<open>updateAccount\<close> panics for that account instead of skipping the
  row, and \<^verbatim>\<open>Sync\<close> does not complete: it never returns \<^verbatim>\<open>nil\<close>, and when no write to
  the table fails it ends in the panic.
\<close>

theorem unparseable_date_aborts_run:
  assumes "(accountID, plaidTs) \<in> set (byAccountIDbyTransactionID (map toRecord transactions))"
      and "(k, t) \<in> set (index (byAccountIDbyTransactionID airtableTransactions) accountID)"
      and "k \<notin> fst ` set plaidTs"
      and "parse (DateTime (Fields t)) = Inl e"
  shows "(\<exists>e'. updateAccount parse (cutoff accountID) plaidTs
            (index (byAccountIDbyTransactionID airtableTransactions) accountID) = Inl e') \<and>
         fst (Sync parse cutoff tableDelete tableCreate tableUpdate
                transactions airtableTransactions st) \<noteq> Inr None \<and>
         ((\<forall>r s. fst (tableDelete r s) = None \<and> fst (tableCreate r s) = None \<and>
                 fst (tableUpdate r s) = None) \<longrightarrow>
          (\<exists>e'. fst (Sync parse cutoff tableDelete tableCreate tableUpdate
                    transactions airtableTransactions st) = Inl e'))"
proof -
  have p: "\<exists>e'. updateAccount parse (cutoff accountID) plaidTs
            (index (byAccountIDbyTransactionID airtableTransactions) accountID) = Inl e'"
    using assms(2-4) by (rule updateAccount_panics)
  have n: "fst (Sync parse cutoff tableDelete tableCreate tableUpdate
                transactions airtableTransactions st) \<noteq> Inr None"
    unfolding Sync_def Let_def using assms(1) p by (rule syncAccounts_not_completed)
  have "\<exists>e'. fst (Sync parse cutoff tableDelete tableCreate tableUpdate
                    transactions airtableTransactions st) = Inl e'"
    if "\<forall>r s. fst (tableDelete r s) = None \<and> fst (tableCreate r s) = None \<and>
                 fst (tableUpdate r s) = None"
    unfolding Sync_def Let_def using assms(1) p
    by (rule syncAccounts_panics) (use that in simp_all)
  with p n show ?thesis by blast
qed

theorem unparseable_date_aborts_run_witness:
  "(''acct'', exampleSource) \<in> set (byAccountIDbyTransactionID (map toRecord exampleTransactions)) \<and>
   (''A2'', exampleRow ''recA2'' ''A2'' False ''22/05/2024'' '' '') \<in>
      set (index (byAccountIDbyTransactionID (map snd exampleMirror_malformed)) ''acct'') \<and>
   ''A2'' \<notin> fst ` set exampleSource \<and>
   parseDate ''22/05/2024'' = Inl (ParseError ''22/05/2024'') \<and>
   updateAccount parseDate exampleCutoff exampleSource exampleMirror_malformed =
     Inl (ParseError ''22/05/2024'') \<and>
   Sync parseDate (\<lambda>a. exampleCutoff) (\<lambda>r s. (None :: unit option, s)) (\<lambda>r s. (None, s))
     (\<lambda>r s. (None, s)) exampleTransactions (map snd exampleMirror_malformed) () =
     (Inl (ParseError ''22/05/2024''), ())"
proof -
  have a: "(''acct'', exampleSource) \<in> set (byAccountIDbyTransactionID (map toRecord exampleTransactions))"
    by (simp add: example_arranged)
  have b: "(''A2'', exampleRow ''recA2'' ''A2'' False ''22/05/2024'' '' '') \<in>
      set (index (byAccountIDbyTransactionID (map snd exampleMirror_malformed)) ''acct'')"
    unfolding example_arranged index_def by (simp add: exampleMirror_malformed_def)
  have c: "''A2'' \<notin> fst ` set exampleSource"
    by (simp add: exampleSource_def)
  have d: "parseDate (DateTime (Fields (exampleRow ''recA2'' ''A2'' False ''22/05/2024'' '' ''))) =
      Inl (ParseError ''22/05/2024'')"
    by (simp add: exampleRow_def parseDate_examples)
  have u: "updateAccount parseDate exampleCutoff exampleSource exampleMirror_malformed =
     Inl (ParseError ''22/05/2024'')"
    by (simp add: updateAccount_def exampleSource_def exampleMirror_malformed_def
        exampleCutoff_def exampleRow_def parseDate_examples After_def)
  show ?thesis
    using unparseable_date_aborts_run [where parse = parseDate and cutoff = "\<lambda>a. exampleCutoff"
        and tableDelete = "\<lambda>r s. (None :: unit option, s)" and tableCreate = "\<lambda>r s. (None, s)"
        and tableUpdate = "\<lambda>r s. (None, s)" and st = "()", OF a b c d]
      a b c u
    by (simp add: parseDate_examples Sync_def example_arranged index_def)
qed

section \<open>Properties of the pagination fetcher\<close>

subsection \<open>A run against the paging server\<close>

lemma sint_word_of_nat_32: "k < 2 ^ 31 \<Longrightarrow> sint (word_of_nat k :: 32 word) = int k"
  by (simp add: signed_of_nat signed_take_bit_int_eq_self)

lemma pages_step:
  fixes n off T :: nat
  assumes "0 < n" "off + n < T"
  shows "(T - (off + n) + (n - 1)) div n = Suc ((T - (off + n + n) + (n - 1)) div n)"
proof (cases "n \<le> T - (off + n)")
  case True
  then have "T - (off + n) + (n - 1) = (T - (off + n + n) + (n - 1)) + n"
    by simp
  then show ?thesis
    using assms(1) by (simp only: div_add_self2)
next
  case False
  then have z: "T - (off + n + n) = 0" by simp
  have "T - (off + n) + (n - 1) = (T - (off + n) - 1) + n"
    using assms by simp
  moreover have "(T - (off + n) - 1) div n = 0"
    using False by simp
  moreover have "(n - 1) div n = 0"
    using assms(1) by simp
  ultimately show ?thesis
    using assms(1) by (simp only: z div_add_self2) simp
qed

lemma pages_total:
  fixes n T :: nat
  assumes "0 < n"
  shows "Suc ((T - n + (n - 1)) div n) = max 1 ((T + n - 1) div n)"
proof (cases "T \<le> n")
  case True
  then have "T - n = 0" by simp
  moreover have "(n - 1) div n = 0" using assms by simp
  moreover have "(T + n - 1) div n \<le> 1"
  proof -
    have "T + n - 1 < 2 * n" using True assms by simp
    then have "(T + n - 1) div n < 2"
      using assms by (simp add: less_mult_imp_div_less)
    then show ?thesis by simp
  qed
  ultimately show ?thesis by simp
next
  case False
  then have "T + n - 1 = (T - n + (n - 1)) + n" using assms by simp
  then show ?thesis
    using assms by (simp only: div_add_self2)
qed

lemma paged_page:
  fixes recs :: "'tx list" and s :: 's
  assumes "Options req = Some opts" "Offset opts = Some (word_of_nat off)"
      and "Count opts = Some (word_of_nat n)" "off < 2 ^ 31" "n < 2 ^ 31"
  shows "(pagedServer recs req s :: ('e + 'tx TransactionsGetResponse) \<times> 's) =
     (Inr \<lparr>Transactions = take n (drop off recs),
           TotalTransactions = word_of_nat (length recs)\<rparr>, s)"
  using assms by (simp add: pagedServer_def sint_word_of_nat_32)

lemma pageLoop_paged:
  fixes recs :: "'tx list" and ex :: "('e, 'tx) exchange list" and s :: 's
  assumes "0 < n" "length recs < 2 ^ 31"
      and "Options req = Some opts" "Offset opts = Some (word_of_nat off)"
      and "Count opts = Some (word_of_nat n)"
  shows "\<exists>ex'. pageLoop (pagedServer recs) (int (length recs)) req (take (off + n) recs) ex s =
           Some (Inr (recs, None), ex', s) \<and>
         length ex' = length ex + (length recs - (off + n) + (n - 1)) div n"
  using assms(3-5)
proof (induction "length recs - (off + n)" arbitrary: off req opts ex rule: less_induct)
  case less
  show ?case
  proof (cases "off + n < length recs")
    case False
    then have all: "take (off + n) recs = recs" by simp
    have "(length recs - (off + n) + (n - 1)) div n = 0"
      using False assms(1) by simp
    then show ?thesis
      by (subst pageLoop.simps) (simp add: all)
  next
    case True
    let ?req' = "req\<lparr>Options := Some (opts\<lparr>Offset := Some (word_of_nat off + word_of_nat n)\<rparr>)\<rparr>"
    let ?opts' = "opts\<lparr>Offset := Some (word_of_nat off + word_of_nat n)\<rparr>"
    let ?res = "\<lparr>Transactions = take n (drop (off + n) recs),
                 TotalTransactions = word_of_nat (length recs) :: 32 word\<rparr>"
    have bound: "off + n < 2 ^ 31" "n < 2 ^ 31"
      using True assms(2) by simp_all
    have o': "Options ?req' = Some ?opts'" "Offset ?opts' = Some (word_of_nat (off + n))"
        "Count ?opts' = Some (word_of_nat n)"
      using less.prems by simp_all
    have page: "(pagedServer recs ?req' s :: ('e + 'tx TransactionsGetResponse) \<times> 's) = (Inr ?res, s)"
      using o' bound by (rule paged_page)
    have acc: "take (off + n) recs @ take n (drop (off + n) recs) = take (off + n + n) recs"
      by (simp add: take_add)
    have dec: "length recs - (off + n + n) < length recs - (off + n)"
      using True assms(1) by simp
    from less.hyps [OF dec o', of "ex @ [(?req', Inr ?res)]"]
    obtain ex' where ih: "pageLoop (pagedServer recs) (int (length recs)) ?req'
          (take (off + n + n) recs) (ex @ [(?req', Inr ?res)]) s = Some (Inr (recs, None), ex', s)"
        "length ex' = length (ex @ [(?req', Inr ?res)]) + (length recs - (off + n + n) + (n - 1)) div n"
      by blast
    have "pageLoop (pagedServer recs) (int (length recs)) req (take (off + n) recs) ex s =
        Some (Inr (recs, None), ex', s)"
      using True less.prems page ih(1)
      by (subst pageLoop.simps) (simp add: acc Let_def)
    moreover have "length ex' = length ex + (length recs - (off + n) + (n - 1)) div n"
      using ih(2) unfolding pages_step [OF assms(1) True] by simp
    ultimately show ?thesis by blast
  qed
qed

lemma AllTransactions_paged:
  fixes recs :: "'tx list" and s :: 's
  assumes "0 < n" "n < 2 ^ 31" "length recs < 2 ^ 31"
      and "Options req = Some opts" "Offset opts = Some 0"
      and "Count opts = Some (word_of_nat n)"
  shows "\<exists>ex. (AllTransactions (pagedServer recs) req s :: ('s, 'e, 'tx) fetched) =
            Some (Inr (recs, None), ex, s) \<and>
         length ex = max 1 ((length recs + n - 1) div n)"
proof -
  define res :: "'tx TransactionsGetResponse"
    where "res = \<lparr>Transactions = take n recs, TotalTransactions = word_of_nat (length recs)\<rparr>"
  define ex0 :: "('e, 'tx) exchange list" where "ex0 = [(req, Inr res)]"
  have o: "Offset opts = Some (word_of_nat 0)"
    using assms(5) by simp
  have page: "(pagedServer recs req s :: ('e + 'tx TransactionsGetResponse) \<times> 's) = (Inr res, s)"
    using paged_page [OF assms(4) o assms(6) _ assms(2), of recs s] by (simp add: res_def)
  have "\<exists>ex'. pageLoop (pagedServer recs) (int (length recs)) req (take (0 + n) recs) ex0 s =
           Some (Inr (recs, None), ex', s) \<and>
         length ex' = length ex0 + (length recs - (0 + n) + (n - 1)) div n"
    using assms(1,3,4) o assms(6) by (rule pageLoop_paged)
  then obtain ex' where loop: "pageLoop (pagedServer recs) (int (length recs)) req (take n recs) ex0 s =
        Some (Inr (recs, None), ex', s)"
      and len: "length ex' = Suc ((length recs - n + (n - 1)) div n)"
    by (auto simp: ex0_def)
  have "(AllTransactions (pagedServer recs) req s :: ('s, 'e, 'tx) fetched) = Some (Inr (recs, None), ex', s)"
    using loop assms(3) by (simp add: AllTransactions_def page sint_word_of_nat_32 res_def ex0_def)
  moreover have "length ex' = max 1 ((length recs + n - 1) div n)"
    unfolding len by (rule pages_total [OF assms(1)])
  ultimately show ?thesis by blast
qed

lemma pageLoop_no_panic_aux:
  assumes "pageLoop execute totalT req txs ex s = Some y"
  shows "\<forall>opts off cnt. Options req = Some opts \<longrightarrow> Offset opts = Some off \<longrightarrow>
           Count opts = Some cnt \<longrightarrow> (\<exists>txs' e. fst y = Inr (txs', e))"
proof (rule pageLoop.raw_induct [where P = "\<lambda>execute totalT req txs ex s y.
    \<forall>opts off cnt. Options req = Some opts \<longrightarrow> Offset opts = Some off \<longrightarrow>
           Count opts = Some cnt \<longrightarrow> (\<exists>txs' e. fst y = Inr (txs', e))", OF _ assms], intro allI impI)
  fix pageLoop' execute totalT req txs ex s y opts off cnt
  assume IH: "\<And>execute totalT req txs ex s y. pageLoop' execute totalT req txs ex s = Some y \<Longrightarrow>
      \<forall>opts off cnt. Options req = Some opts \<longrightarrow> Offset opts = Some off \<longrightarrow>
           Count opts = Some cnt \<longrightarrow> (\<exists>txs' e. fst y = Inr (txs', e))"
    and body: "(if int (length txs) < totalT
      then case Options req of
           None \<Rightarrow> Some (Inl NilPointerDereference, ex, s)
           | Some opts \<Rightarrow>
               case Offset opts of
               None \<Rightarrow> Some (Inl NilPointerDereference, ex, s)
               | Some off \<Rightarrow>
                   case Count opts of
                   None \<Rightarrow> Some (Inl NilPointerDereference, ex, s)
                   | Some cnt \<Rightarrow>
                       let req' = req\<lparr>Options := Some (opts\<lparr>Offset := Some (off + cnt)\<rparr>)\<rparr>
                       in case execute req' s of
                          (Inl err, s') \<Rightarrow>
                            Some (Inr (txs, Some err), ex @ [(req', Inl err)], s')
                          | (Inr res, s') \<Rightarrow>
                              pageLoop' execute totalT req' (txs @ Transactions res)
                               (ex @ [(req', Inr res)]) s'
      else Some (Inr (txs, None), ex, s)) = Some y"
    and o: "Options req = Some opts" "Offset opts = Some off" "Count opts = Some cnt"
  show "\<exists>txs' e. fst y = Inr (txs', e)"
  proof (cases "int (length txs) < totalT")
    case False
    with body show ?thesis by auto
  next
    case True
    let ?req' = "req\<lparr>Options := Some (opts\<lparr>Offset := Some (off + cnt)\<rparr>)\<rparr>"
    obtain r s' where ex: "execute ?req' s = (r, s')" by (cases "execute ?req' s")
    show ?thesis
    proof (cases r)
      case (Inl err)
      with body True o ex show ?thesis by (auto simp: Let_def)
    next
      case (Inr res)
      with body True o ex
      have "pageLoop' execute totalT ?req' (txs @ Transactions res) (ex @ [(?req', Inr res)]) s' = Some y"
        by (simp add: Let_def)
      from IH [OF this] o(3) show ?thesis by simp
    qed
  qed
qed

lemma pageLoop_errors_last:
  assumes "pageLoop execute totalT req txs ex s = Some y"
  shows "\<exists>more. fst (snd y) = ex @ more \<and>
           (((\<forall>x \<in> set more. \<not> isl (snd x)) \<and> (\<forall>txs' e. fst y = Inr (txs', e) \<longrightarrow> e = None)) \<or>
            (\<exists>pre rq e txs'. more = pre @ [(rq, Inl e)] \<and> (\<forall>x \<in> set pre. \<not> isl (snd x)) \<and>
               fst y = Inr (txs', Some e)))"
proof (rule pageLoop.raw_induct [where P = "\<lambda>execute totalT req txs ex s y.
    \<exists>more. fst (snd y) = ex @ more \<and>
           (((\<forall>x \<in> set more. \<not> isl (snd x)) \<and> (\<forall>txs' e. fst y = Inr (txs', e) \<longrightarrow> e = None)) \<or>
            (\<exists>pre rq e txs'. more = pre @ [(rq, Inl e)] \<and> (\<forall>x \<in> set pre. \<not> isl (snd x)) \<and>
               fst y = Inr (txs', Some e)))", OF _ assms])
  fix pageLoop' execute totalT req txs ex s y
  assume IH: "\<And>execute totalT req txs ex s y. pageLoop' execute totalT req txs ex s = Some y \<Longrightarrow>
      \<exists>more. fst (snd y) = ex @ more \<and>
           (((\<forall>x \<in> set more. \<not> isl (snd x)) \<and> (\<forall>txs' e. fst y = Inr (txs', e) \<longrightarrow> e = None)) \<or>
            (\<exists>pre rq e txs'. more = pre @ [(rq, Inl e)] \<and> (\<forall>x \<in> set pre. \<not> isl (snd x)) \<and>
               fst y = Inr (txs', Some e)))"
    and body: "(if int (length txs) < totalT
      then case Options req of
           None \<Rightarrow> Some (Inl NilPointerDereference, ex, s)
           | Some opts \<Rightarrow>
               case Offset opts of
               None \<Rightarrow> Some (Inl NilPointerDereference, ex, s)
               | Some off \<Rightarrow>
                   case Count opts of
                   None \<Rightarrow> Some (Inl NilPointerDereference, ex, s)
                   | Some cnt \<Rightarrow>
                       let req' = req\<lparr>Options := Some (opts\<lparr>Offset := Some (off + cnt)\<rparr>)\<rparr>
                       in case execute req' s of
                          (Inl err, s') \<Rightarrow>
                            Some (Inr (txs, Some err), ex @ [(req', Inl err)], s')
                          | (Inr res, s') \<Rightarrow>
                              pageLoop' execute totalT req' (txs @ Transactions res)
                               (ex @ [(req', Inr res)]) s'
      else Some (Inr (txs, None), ex, s)) = Some y"
  show "\<exists>more. fst (snd y) = ex @ more \<and>
           (((\<forall>x \<in> set more. \<not> isl (snd x)) \<and> (\<forall>txs' e. fst y = Inr (txs', e) \<longrightarrow> e = None)) \<or>
            (\<exists>pre rq e txs'. more = pre @ [(rq, Inl e)] \<and> (\<forall>x \<in> set pre. \<not> isl (snd x)) \<and>
               fst y = Inr (txs', Some e)))"
  proof (cases "int (length txs) < totalT")
    case False
    with body have "y = (Inr (txs, None), ex, s)" by auto
    then show ?thesis by simp
  next
    case True
    show ?thesis
    proof (cases "\<exists>opts off cnt. Options req = Some opts \<and> Offset opts = Some off \<and> Count opts = Some cnt")
      case False
      with body True have "y = (Inl NilPointerDereference, ex, s)"
        by (auto split: option.splits)
      then show ?thesis by simp
    next
      case set: True
      then obtain opts off cnt where o: "Options req = Some opts" "Offset opts = Some off"
          "Count opts = Some cnt" by blast
      let ?req' = "req\<lparr>Options := Some (opts\<lparr>Offset := Some (off + cnt)\<rparr>)\<rparr>"
      obtain r s' where ex: "execute ?req' s = (r, s')" by (cases "execute ?req' s")
      show ?thesis
      proof (cases r)
        case (Inl err)
        with body True o ex have "y = (Inr (txs, Some err), ex @ [(?req', Inl err)], s')"
          by (auto simp: Let_def)
        then have "fst (snd y) = ex @ [(?req', Inl err)] \<and>
            [(?req', Inl err)] = [] @ [(?req', Inl err)] \<and> (\<forall>x \<in> set []. \<not> isl (snd x)) \<and>
            fst y = Inr (txs, Some err)"
          by simp
        then show ?thesis by blast
      next
        case (Inr res)
        with body True o ex
        have "pageLoop' execute totalT ?req' (txs @ Transactions res) (ex @ [(?req', Inr res)]) s' = Some y"
          by (simp add: Let_def)
        from IH [OF this] obtain more where m: "fst (snd y) = (ex @ [(?req', Inr res)]) @ more"
            "((\<forall>x \<in> set more. \<not> isl (snd x)) \<and> (\<forall>txs' e. fst y = Inr (txs', e) \<longrightarrow> e = None)) \<or>
             (\<exists>pre rq e txs'. more = pre @ [(rq, Inl e)] \<and> (\<forall>x \<in> set pre. \<not> isl (snd x)) \<and>
               fst y = Inr (txs', Some e))"
          by blast
        from m(2) show ?thesis
        proof
          assume "(\<forall>x \<in> set more. \<not> isl (snd x)) \<and> (\<forall>txs' e. fst y = Inr (txs', e) \<longrightarrow> e = None)"
          then have "fst (snd y) = ex @ ((?req', Inr res) # more) \<and>
              (\<forall>x \<in> set ((?req', Inr res) # more). \<not> isl (snd x)) \<and>
              (\<forall>txs' e. fst y = Inr (txs', e) \<longrightarrow> e = None)"
            using m(1) by simp
          then show ?thesis by blast
        next
          assume "\<exists>pre rq e txs'. more = pre @ [(rq, Inl e)] \<and> (\<forall>x \<in> set pre. \<not> isl (snd x)) \<and>
               fst y = Inr (txs', Some e)"
          then obtain pre rq e txs' where p: "more = pre @ [(rq, Inl e)]"
              "\<forall>x \<in> set pre. \<not> isl (snd x)" "fst y = Inr (txs', Some e)"
            by blast
          have "fst (snd y) = ex @ (((?req', Inr res) # pre) @ [(rq, Inl e)]) \<and>
              ((?req', Inr res) # pre) @ [(rq, Inl e)] = ((?req', Inr res) # pre) @ [(rq, Inl e)] \<and>
              (\<forall>x \<in> set ((?req', Inr res) # pre). \<not> isl (snd x)) \<and> fst y = Inr (txs', Some e)"
            using m(1) p by simp
          then show ?thesis by blast
        qed
      qed
    qed
  qed
qed

lemma pageLoop_no_panic:
  assumes "pageLoop execute totalT req txs ex s = Some y"
      and "Options req = Some opts" "Offset opts = Some off" "Count opts = Some cnt"
  shows "\<exists>txs' e. fst y = Inr (txs', e)"
  using pageLoop_no_panic_aux [OF assms(1)] assms(2-4) by blast

lemma commandRequest_options:
  "\<exists>opts. Options (commandRequest newOptions accountID startDate endDate token) = Some opts \<and>
     Offset opts = Offset newOptions \<and> Count opts = Count newOptions"
  by (simp add: commandRequest_def Let_def)

lemma exampleRequest_options:
  "Options exampleRequest = Some (exampleOptions\<lparr>AccountIds := Some []\<rparr>)"
  "Offset (exampleOptions\<lparr>AccountIds := Some []\<rparr>) = Some 0"
  "Count (exampleOptions\<lparr>AccountIds := Some []\<rparr>) = Some (word_of_nat 100)"
  by (simp_all add: exampleRequest_def commandRequest_def exampleOptions_def)

subsection \<open>Pagination completeness\<close>

text \<open>
  Claim C5, as the code has it. Against a server that holds \<open>T\<close> records (fewer than
  \<open>2^31\<close>) and answers each request with the page its offset and count select, a fetch
  whose request starts at offset 0 with page size \<open>P \<ge> 1\<close> returns exactly the server's
  records, in the server's order, without an error, and issues \<open>max 1 (ceil (T / P))\<close>
  requests: the first request is always issued, so a total of zero costs one request and
  no more.
\<close>

theorem pagination_complete:
  fixes recs :: "'tx list" and s :: 's
  assumes "0 < n" "n < 2 ^ 31" "length recs < 2 ^ 31"
      and "Options req = Some opts" "Offset opts = Some 0"
      and "Count opts = Some (word_of_nat n)"
  shows "\<exists>ex. (AllTransactions (pagedServer recs) req s :: ('s, 'e, 'tx) fetched) =
            Some (Inr (recs, None), ex, s) \<and>
         length ex = max 1 ((length recs + n - 1) div n)"
  using assms by (rule AllTransactions_paged)

theorem pagination_complete_witness:
  "(0::nat) < 100 \<and> (100::nat) < 2 ^ 31 \<and> length [0..<250] < 2 ^ 31 \<and>
   Options exampleRequest = Some (exampleOptions\<lparr>AccountIds := Some []\<rparr>) \<and>
   Offset (exampleOptions\<lparr>AccountIds := Some []\<rparr>) = Some 0 \<and>
   Count (exampleOptions\<lparr>AccountIds := Some []\<rparr>) = Some (word_of_nat 100) \<and>
   (\<exists>ex. (AllTransactions (pagedServer [0..<250]) exampleRequest () :: (unit, string, nat) fetched) =
            Some (Inr ([0..<250], None), ex, ()) \<and> length ex = 3)"
proof -
  have a: "(0::nat) < 100" "(100::nat) < 2 ^ 31" "length [0..<250] < 2 ^ 31"
    by simp_all
  show ?thesis
    using pagination_complete [OF a exampleRequest_options, where s = "()" and 'e = string]
      a exampleRequest_options
    by simp
qed

text \<open>
  With no records at all the fetcher still issues its first request, while
  \<open>ceil (0 / 100)\<close> is zero.
\<close>

theorem pagination_zero_total_counterexample:
  "(AllTransactions (pagedServer ([] :: nat list)) exampleRequest () :: (unit, string, nat) fetched) =
     Some (Inr ([], None),
           [(exampleRequest, Inr \<lparr>Transactions = [], TotalTransactions = 0\<rparr>)], ()) \<and>
   length [(exampleRequest, Inr \<lparr>Transactions = [] :: nat list, TotalTransactions = 0\<rparr>) :: (string, nat) exchange] = 1 \<and>
   (0 + 100 - 1) div 100 = (0 :: nat)"
  by (simp add: AllTransactions_def pagedServer_def exampleRequest_options pageLoop.simps)

subsection \<open>The first error ends the fetch\<close>

text \<open>
  Claim C6. When the first request fails, \<^verbatim>\<open>AllTransactions\<close> returns that error at once;
  when a request of the loop fails, the loop returns that error at once, with what it had
  accumulated, and the log and the state of the world are those right after the failed
  request. In every run that returns, a failed request is the last one issued, every
  request before it succeeded, and its error is the error returned.
\<close>

theorem first_error_propagates:
  fixes execute :: "('s, 'e, 'tx) execute"
  shows "(\<forall>err s'. execute req s = (Inl err, s') \<longrightarrow>
            AllTransactions execute req s = Some (Inr ([], Some err), [(req, Inl err)], s')) \<and>
         (\<forall>opts off cnt err s'.
            int (length transactions) < totalTransactions \<and> Options req = Some opts \<and>
            Offset opts = Some off \<and> Count opts = Some cnt \<and>
            execute (req\<lparr>Options := Some (opts\<lparr>Offset := Some (off + cnt)\<rparr>)\<rparr>) s = (Inl err, s') \<longrightarrow>
            pageLoop execute totalTransactions req transactions exchanges s =
              Some (Inr (transactions, Some err),
                    exchanges @ [(req\<lparr>Options := Some (opts\<lparr>Offset := Some (off + cnt)\<rparr>)\<rparr>, Inl err)],
                    s')) \<and>
         (\<forall>out ex s' rq err.
            AllTransactions execute req s = Some (out, ex, s') \<and> (rq, Inl err) \<in> set ex \<longrightarrow>
            (\<exists>pre txs. ex = pre @ [(rq, Inl err)] \<and> (\<forall>x \<in> set pre. \<not> isl (snd x)) \<and>
               out = Inr (txs, Some err)))"
proof (intro conjI allI impI)
  fix err s'
  assume "execute req s = (Inl err, s')"
  then show "AllTransactions execute req s = Some (Inr ([], Some err), [(req, Inl err)], s')"
    by (simp add: AllTransactions_def)
next
  fix opts off cnt err s'
  assume "int (length transactions) < totalTransactions \<and> Options req = Some opts \<and>
            Offset opts = Some off \<and> Count opts = Some cnt \<and>
            execute (req\<lparr>Options := Some (opts\<lparr>Offset := Some (off + cnt)\<rparr>)\<rparr>) s = (Inl err, s')"
  then show "pageLoop execute totalTransactions req transactions exchanges s =
              Some (Inr (transactions, Some err),
                    exchanges @ [(req\<lparr>Options := Some (opts\<lparr>Offset := Some (off + cnt)\<rparr>)\<rparr>, Inl err)],
                    s')"
    by (subst pageLoop.simps) (simp add: Let_def)
next
  fix out ex s' rq err
  assume a: "AllTransactions execute req s = Some (out, ex, s') \<and> (rq, Inl err) \<in> set ex"
  obtain r s1 where first: "execute req s = (r, s1)" by (cases "execute req s")
  show "\<exists>pre txs. ex = pre @ [(rq, Inl err)] \<and> (\<forall>x \<in> set pre. \<not> isl (snd x)) \<and>
               out = Inr (txs, Some err)"
  proof (cases r)
    case (Inl e)
    with a first have "out = Inr ([], Some e)" "ex = [(req, Inl e)]"
      by (simp_all add: AllTransactions_def)
    with a have "ex = [] @ [(rq, Inl err)] \<and> (\<forall>x \<in> set []. \<not> isl (snd x)) \<and> out = Inr ([], Some err)"
      by auto
    then show ?thesis by blast
  next
    case (Inr res)
    with a first have loop: "pageLoop execute (sint (TotalTransactions res)) req (Transactions res)
        [(req, Inr res)] s1 = Some (out, ex, s')"
      by (simp add: AllTransactions_def)
    from pageLoop_errors_last [OF loop] obtain more where m: "ex = [(req, Inr res)] @ more"
        "((\<forall>x \<in> set more. \<not> isl (snd x)) \<and> (\<forall>txs' e. out = Inr (txs', e) \<longrightarrow> e = None)) \<or>
         (\<exists>pre rq e txs'. more = pre @ [(rq, Inl e)] \<and> (\<forall>x \<in> set pre. \<not> isl (snd x)) \<and>
            out = Inr (txs', Some e))"
      by auto
    from a m(1) have in_more: "(rq, Inl err) \<in> set more" by auto
    from m(2) show ?thesis
    proof
      assume "(\<forall>x \<in> set more. \<not> isl (snd x)) \<and> (\<forall>txs' e. out = Inr (txs', e) \<longrightarrow> e = None)"
      with in_more show ?thesis by force
    next
      assume "\<exists>pre rq e txs'. more = pre @ [(rq, Inl e)] \<and> (\<forall>x \<in> set pre. \<not> isl (snd x)) \<and>
            out = Inr (txs', Some e)"
      then obtain pre rq' e txs' where p: "more = pre @ [(rq', Inl e)]"
          "\<forall>x \<in> set pre. \<not> isl (snd x)" "out = Inr (txs', Some e)"
        by blast
      from in_more p(1,2) have "(rq, Inl err) = (rq', Inl e)" by force
      with p m(1) have "ex = ((req, Inr res) # pre) @ [(rq, Inl err)] \<and>
          (\<forall>x \<in> set ((req, Inr res) # pre). \<not> isl (snd x)) \<and> out = Inr (txs', Some err)"
        by simp
      then show ?thesis by blast
    qed
  qed
qed

lemma failingAt_example:
  "(AllTransactions (failingAt 1 [0..<250]) exampleRequest 0 :: (nat, string, nat) fetched) =
     Some (Inr ([0..<100], Some ''INTERNAL_SERVER_ERROR''),
           [(exampleRequest, Inr \<lparr>Transactions = [0..<100], TotalTransactions = 250\<rparr>),
            (exampleRequest\<lparr>Options := Some (exampleOptions\<lparr>AccountIds := Some [], Offset := Some 100\<rparr>)\<rparr>,
             Inl ''INTERNAL_SERVER_ERROR'')],
           2)"
  by (simp add: AllTransactions_def failingAt_def pagedServer_def exampleRequest_options
      exampleOptions_def pageLoop.simps Let_def)

theorem first_error_propagates_witness:
  "(AllTransactions (failingAt 1 [0..<250]) exampleRequest 0 :: (nat, string, nat) fetched) =
     Some (Inr ([0..<100], Some ''INTERNAL_SERVER_ERROR''),
           [(exampleRequest, Inr \<lparr>Transactions = [0..<100], TotalTransactions = 250\<rparr>),
            (exampleRequest\<lparr>Options := Some (exampleOptions\<lparr>AccountIds := Some [], Offset := Some 100\<rparr>)\<rparr>,
             Inl ''INTERNAL_SERVER_ERROR'')],
           2) \<and>
   (\<exists>pre txs.
      [(exampleRequest, Inr \<lparr>Transactions = [0..<100], TotalTransactions = 250\<rparr>),
       (exampleRequest\<lparr>Options := Some (exampleOptions\<lparr>AccountIds := Some [], Offset := Some 100\<rparr>)\<rparr>,
        Inl ''INTERNAL_SERVER_ERROR'')] =
      pre @ [(exampleRequest\<lparr>Options := Some (exampleOptions\<lparr>AccountIds := Some [], Offset := Some 100\<rparr>)\<rparr>,
              Inl ''INTERNAL_SERVER_ERROR'')] \<and>
      list_all (\<lambda>x. \<not> isl (snd x)) pre \<and>
      (Inr ([0..<100], Some ''INTERNAL_SERVER_ERROR'') :: runtimeError + nat list \<times> string option) =
        Inr (txs, Some ''INTERNAL_SERVER_ERROR'')) \<and>
   (AllTransactions (failingAt 0 [0..<250]) exampleRequest 0 :: (nat, string, nat) fetched) =
     Some (Inr ([], Some ''INTERNAL_SERVER_ERROR''), [(exampleRequest, Inl ''INTERNAL_SERVER_ERROR'')], 1)"
proof -
  have f0: "failingAt 0 ([0..<250] :: nat list) exampleRequest 0 = (Inl ''INTERNAL_SERVER_ERROR'', 1)"
    by (simp add: failingAt_def)
  note t = first_error_propagates [where execute = "failingAt 1 ([0..<250] :: nat list)"
      and req = exampleRequest and s = 0]
  note t0 = first_error_propagates [where execute = "failingAt 0 ([0..<250] :: nat list)"
      and req = exampleRequest and s = 0]
  from t have "\<forall>out ex s' rq err.
            AllTransactions (failingAt 1 ([0..<250] :: nat list)) exampleRequest 0 = Some (out, ex, s') \<and>
            (rq, Inl err) \<in> set ex \<longrightarrow>
            (\<exists>pre txs. ex = pre @ [(rq, Inl err)] \<and> (\<forall>x \<in> set pre. \<not> isl (snd x)) \<and>
               out = Inr (txs, Some err))"
    by blast
  then have g: "\<exists>pre txs.
      [(exampleRequest, Inr \<lparr>Transactions = [0..<100], TotalTransactions = 250\<rparr>),
       (exampleRequest\<lparr>Options := Some (exampleOptions\<lparr>AccountIds := Some [], Offset := Some 100\<rparr>)\<rparr>,
        Inl ''INTERNAL_SERVER_ERROR'')] =
      pre @ [(exampleRequest\<lparr>Options := Some (exampleOptions\<lparr>AccountIds := Some [], Offset := Some 100\<rparr>)\<rparr>,
              Inl ''INTERNAL_SERVER_ERROR'')] \<and>
      (\<forall>x \<in> set pre. \<not> isl (snd x)) \<and>
      (Inr ([0..<100], Some ''INTERNAL_SERVER_ERROR'') :: runtimeError + nat list \<times> string option) =
        Inr (txs, Some ''INTERNAL_SERVER_ERROR'')"
    using failingAt_example by fastforce
  from t0 f0 have h: "(AllTransactions (failingAt 0 [0..<250]) exampleRequest 0 :: (nat, string, nat) fetched) =
     Some (Inr ([], Some ''INTERNAL_SERVER_ERROR''), [(exampleRequest, Inl ''INTERNAL_SERVER_ERROR'')], 1)"
    by blast
  from g h failingAt_example show ?thesis
    unfolding list_all_iff by blast
qed

subsection \<open>Offset and count on a fetch of several pages\<close>

lemma AllTransactions_nil_dereference:
  fixes execute :: "('s, 'e, 'tx) execute"
  assumes "execute req s = (Inr res, s')"
      and "int (length (Transactions res)) < sint (TotalTransactions res)"
      and "Options req = None \<or> (\<exists>opts. Options req = Some opts \<and> (Offset opts = None \<or> Count opts = None))"
  shows "AllTransactions execute req s = Some (Inl NilPointerDereference, [(req, Inr res)], s')"
  using assms
  by (auto simp: AllTransactions_def pageLoop.simps [of execute _ req] split: option.splits)

lemma AllTransactions_no_panic:
  fixes execute :: "('s, 'e, 'tx) execute"
  assumes "AllTransactions execute req s = Some (out, ex, s'')"
      and "Options req = Some opts" "Offset opts = Some off" "Count opts = Some cnt"
  shows "\<exists>txs e. out = Inr (txs, e)"
proof -
  obtain r s1 where first: "execute req s = (r, s1)" by (cases "execute req s")
  show ?thesis
  proof (cases r)
    case (Inl err)
    with assms(1) first show ?thesis by (auto simp: AllTransactions_def)
  next
    case (Inr res)
    with assms(1) first have "pageLoop execute (sint (TotalTransactions res)) req (Transactions res)
        [(req, Inr res)] s1 = Some (out, ex, s'')"
      by (simp add: AllTransactions_def)
    from pageLoop_no_panic [OF this assms(2-4)] show ?thesis by simp
  qed
qed

text \<open>
  Claim C10, as the code has it. When the first page holds fewer records than the total
  it reports, a request whose options, offset or count is \<^verbatim>\<open>nil\<close> makes the fetcher panic
  on a nil pointer right after the first response, and a request with both set never
  panics. The commands set neither field themselves: their request carries the offset and
  count of \<^verbatim>\<open>plaid.NewTransactionsGetRequestOptions()\<close>, so for them the fetch of a second
  page panics exactly when that constructor leaves one of the two \<^verbatim>\<open>nil\<close>.
\<close>

theorem multi_page_needs_offset_and_count:
  fixes execute :: "('s, 'e, 'tx) execute"
  assumes "execute req s = (Inr res, s')"
      and "int (length (Transactions res)) < sint (TotalTransactions res)"
  shows "((Options req = None \<or>
           (\<exists>opts. Options req = Some opts \<and> (Offset opts = None \<or> Count opts = None))) \<longrightarrow>
          AllTransactions execute req s = Some (Inl NilPointerDereference, [(req, Inr res)], s')) \<and>
         ((\<exists>opts off cnt. Options req = Some opts \<and> Offset opts = Some off \<and> Count opts = Some cnt) \<longrightarrow>
          (\<forall>out ex s''. AllTransactions execute req s = Some (out, ex, s'') \<longrightarrow>
             (\<exists>txs e. out = Inr (txs, e)))) \<and>
         (req = commandRequest newOptions accountID startDate endDate token \<longrightarrow>
          (AllTransactions execute req s = Some (Inl NilPointerDereference, [(req, Inr res)], s') \<longleftrightarrow>
           Offset newOptions = None \<or> Count newOptions = None))"
proof (intro conjI impI allI)
  assume "Options req = None \<or>
           (\<exists>opts. Options req = Some opts \<and> (Offset opts = None \<or> Count opts = None))"
  with assms show "AllTransactions execute req s = Some (Inl NilPointerDereference, [(req, Inr res)], s')"
    by (rule AllTransactions_nil_dereference)
next
  fix out ex s''
  assume "\<exists>opts off cnt. Options req = Some opts \<and> Offset opts = Some off \<and> Count opts = Some cnt"
    and run: "AllTransactions execute req s = Some (out, ex, s'')"
  then obtain opts off cnt where "Options req = Some opts" "Offset opts = Some off"
      "Count opts = Some cnt"
    by blast
  with run show "\<exists>txs e. out = Inr (txs, e)"
    by (rule AllTransactions_no_panic)
next
  assume r: "req = commandRequest newOptions accountID startDate endDate token"
  from commandRequest_options [of newOptions accountID startDate endDate token] r
  obtain opts where o: "Options req = Some opts" "Offset opts = Offset newOptions"
      "Count opts = Count newOptions"
    by auto
  show "AllTransactions execute req s = Some (Inl NilPointerDereference, [(req, Inr res)], s') \<longleftrightarrow>
           Offset newOptions = None \<or> Count newOptions = None"
  proof
    assume crash: "AllTransactions execute req s = Some (Inl NilPointerDereference, [(req, Inr res)], s')"
    show "Offset newOptions = None \<or> Count newOptions = None"
    proof (rule ccontr)
      assume "\<not> (Offset newOptions = None \<or> Count newOptions = None)"
      then obtain off cnt where "Offset opts = Some off" "Count opts = Some cnt"
        using o by auto
      from AllTransactions_no_panic [OF crash o(1) this] show False by simp
    qed
  next
    assume "Offset newOptions = None \<or> Count newOptions = None"
    with o have "Options req = None \<or>
           (\<exists>opts. Options req = Some opts \<and> (Offset opts = None \<or> Count opts = None))"
      by auto
    with assms show "AllTransactions execute req s = Some (Inl NilPointerDereference, [(req, Inr res)], s')"
      by (rule AllTransactions_nil_dereference)
  qed
qed

lemma nil_request_first_page:
  "(pagedServer ([0..<250] :: nat list)
      (commandRequest nilOptions [] ''2024-05-24'' ''2024-07-01'' ''access-token'') ()
      :: (string + nat TransactionsGetResponse) \<times> unit) =
     (Inr \<lparr>Transactions = [0..<100], TotalTransactions = 250\<rparr>, ())"
  by (simp add: pagedServer_def commandRequest_def nilOptions_def)

theorem multi_page_needs_offset_and_count_witness:
  "(pagedServer ([0..<250] :: nat list)
      (commandRequest nilOptions [] ''2024-05-24'' ''2024-07-01'' ''access-token'') ()
      :: (string + nat TransactionsGetResponse) \<times> unit) =
     (Inr \<lparr>Transactions = [0..<100], TotalTransactions = 250\<rparr>, ()) \<and>
   int (length (Transactions \<lparr>Transactions = [0..<100] :: nat list, TotalTransactions = 250\<rparr>)) <
     sint (TotalTransactions \<lparr>Transactions = [0..<100] :: nat list, TotalTransactions = 250\<rparr>) \<and>
   Offset nilOptions = None \<and>
   (AllTransactions (pagedServer ([0..<250] :: nat list))
      (commandRequest nilOptions [] ''2024-05-24'' ''2024-07-01'' ''access-token'') ()
      :: (unit, string, nat) fetched) =
     Some (Inl NilPointerDereference,
           [(commandRequest nilOptions [] ''2024-05-24'' ''2024-07-01'' ''access-token'',
             Inr \<lparr>Transactions = [0..<100], TotalTransactions = 250\<rparr>)], ())"
proof -
  have short: "int (length (Transactions \<lparr>Transactions = [0..<100] :: nat list, TotalTransactions = 250\<rparr>)) <
     sint (TotalTransactions \<lparr>Transactions = [0..<100] :: nat list, TotalTransactions = 250\<rparr>)"
    by simp
  have nil: "Offset nilOptions = None"
    by (simp add: nilOptions_def)
  show ?thesis
    using multi_page_needs_offset_and_count [where execute = "pagedServer ([0..<250] :: nat list)"
          and req = "commandRequest nilOptions [] ''2024-05-24'' ''2024-07-01'' ''access-token''"
          and s = "()" and newOptions = nilOptions and accountID = "[]"
          and startDate = "''2024-05-24''" and endDate = "''2024-07-01''"
          and token = "''access-token''", OF nil_request_first_page short]
      nil_request_first_page short nil
    by simp
qed

text \<open>
  A command's request built on options that carry the API's defaults fetches 250 records
  in three pages.
\<close>

theorem call_site_pages_counterexample:
  "exampleRequest = commandRequest exampleOptions [] ''2024-05-24'' ''2024-07-01'' ''access-token'' \<and>
   Offset exampleOptions = Some 0 \<and> Count exampleOptions = Some 100 \<and>
   (pagedServer ([0..<250] :: nat list) exampleRequest ()
      :: (string + nat TransactionsGetResponse) \<times> unit) =
     (Inr \<lparr>Transactions = [0..<100], TotalTransactions = 250\<rparr>, ()) \<and>
   (\<exists>ex. (AllTransactions (pagedServer [0..<250]) exampleRequest () :: (unit, string, nat) fetched) =
            Some (Inr ([0..<250], None), ex, ()) \<and> length ex = 3)"
proof -
  have a: "(0::nat) < 100" "(100::nat) < 2 ^ 31" "length [0..<250] < 2 ^ 31"
    by simp_all
  have "\<exists>ex. (AllTransactions (pagedServer [0..<250]) exampleRequest () :: (unit, string, nat) fetched) =
            Some (Inr ([0..<250], None), ex, ()) \<and> length ex = 3"
    using AllTransactions_paged [OF a exampleRequest_options, where s = "()" and 'e = string]
    by simp
  moreover have "(pagedServer ([0..<250] :: nat list) exampleRequest ()
      :: (string + nat TransactionsGetResponse) \<times> unit) =
     (Inr \<lparr>Transactions = [0..<100], TotalTransactions = 250\<rparr>, ())"
    by (simp add: pagedServer_def exampleRequest_options)
  ultimately show ?thesis
    by (simp add: exampleRequest_def exampleOptions_def)
qed

section \<open>Properties of the auth-retry wrapper\<close>

text \<open>
  Claim C7. If the error of the action's first call does not carry the code
  \<^verbatim>\<open>ITEM_LOGIN_REQUIRED\<close> (no error included), the wrapper returns it after that one call.
  If it does, the wrapper relinks once: a relink error is returned without a second call,
  and after a successful relink the action is called once more and its result returned,
  whatever that result is. The action is never called more than twice, \<^verbatim>\<open>Relink\<close> never
  more than once.
\<close>

theorem relink_and_retry_once:
  assumes "action s = (err, s1)"
  shows "(ErrorCode (ToPlaidError err) \<noteq> ''ITEM_LOGIN_REQUIRED'' \<longrightarrow>
            WithRelinkOnAuthError ToPlaidError Relink action s = (err, [CallAction], s1)) \<and>
         (ErrorCode (ToPlaidError err) = ''ITEM_LOGIN_REQUIRED'' \<longrightarrow>
            (\<forall>relinkErr s2. Relink s1 = (Some relinkErr, s2) \<longrightarrow>
               WithRelinkOnAuthError ToPlaidError Relink action s =
                 (Some relinkErr, [CallAction, CallRelink], s2)) \<and>
            (\<forall>s2 err2 s3. Relink s1 = (None, s2) \<and> action s2 = (err2, s3) \<longrightarrow>
               WithRelinkOnAuthError ToPlaidError Relink action s =
                 (err2, [CallAction, CallRelink, CallAction], s3))) \<and>
         length (filter (\<lambda>c. c = CallAction)
                   (fst (snd (WithRelinkOnAuthError ToPlaidError Relink action s)))) \<le> 2 \<and>
         length (filter (\<lambda>c. c = CallRelink)
                   (fst (snd (WithRelinkOnAuthError ToPlaidError Relink action s)))) \<le> 1"
proof -
  obtain re s2 where r: "Relink s1 = (re, s2)" by (cases "Relink s1")
  obtain err2 s3 where a2: "action s2 = (err2, s3)" by (cases "action s2")
  show ?thesis
    using assms r a2 by (auto simp: WithRelinkOnAuthError_def)
qed

theorem relink_and_retry_once_witness:
  "expiredOnce 0 = (Some ''ITEM_LOGIN_REQUIRED'', 1) \<and>
   ErrorCode (codeOf (Some ''ITEM_LOGIN_REQUIRED'')) = ''ITEM_LOGIN_REQUIRED'' \<and>
   relinkSucceeds 1 = (None, 1) \<and> expiredOnce 1 = (None, 2) \<and>
   WithRelinkOnAuthError codeOf relinkSucceeds expiredOnce 0 =
     (None, [CallAction, CallRelink, CallAction], 2) \<and>
   expiredAlways 1 = (Some ''ITEM_LOGIN_REQUIRED'', 2) \<and>
   WithRelinkOnAuthError codeOf relinkSucceeds expiredAlways 0 =
     (Some ''ITEM_LOGIN_REQUIRED'', [CallAction, CallRelink, CallAction], 2) \<and>
   relinkFails 1 = (Some ''user_exit'', 1) \<and>
   WithRelinkOnAuthError codeOf relinkFails expiredOnce 0 =
     (Some ''user_exit'', [CallAction, CallRelink], 1) \<and>
   expiredOnce 1 = (None, 2) \<and> ErrorCode (codeOf None) \<noteq> ''ITEM_LOGIN_REQUIRED'' \<and>
   WithRelinkOnAuthError codeOf relinkFails expiredOnce 1 = (None, [CallAction], 2)"
proof -
  have a: "expiredOnce 0 = (Some ''ITEM_LOGIN_REQUIRED'', 1)"
    and b: "expiredAlways 0 = (Some ''ITEM_LOGIN_REQUIRED'', 1)"
    and c: "expiredOnce 1 = (None, 2)"
    by (simp_all add: expiredOnce_def expiredAlways_def)
  show ?thesis
    using relink_and_retry_once [where action = expiredOnce and s = 0 and ToPlaidError = codeOf
          and Relink = relinkSucceeds, OF a]
      relink_and_retry_once [where action = expiredAlways and s = 0 and ToPlaidError = codeOf
          and Relink = relinkSucceeds, OF b]
      relink_and_retry_once [where action = expiredOnce and s = 0 and ToPlaidError = codeOf
          and Relink = relinkFails, OF a]
      relink_and_retry_once [where action = expiredOnce and s = 1 and ToPlaidError = codeOf
          and Relink = relinkFails, OF c]
    by (simp add: codeOf_def relinkSucceeds_def relinkFails_def expiredOnce_def expiredAlways_def)
qed

section \<open>Properties of the callback handlers\<close>

lemma Get_absent: "map_of v key = None \<Longrightarrow> Get v key = []"
  by (simp add: Get_def)

text \<open>
  Claim C8. On a POST, \<^verbatim>\<open>handleLink\<close> sends a non-empty \<^verbatim>\<open>public_token\<close> on the result
  channel and sends the error \<^verbatim>\<open>Empty public_token\<close> on the error channel when the field is
  absent or empty; \<^verbatim>\<open>handleRelink\<close> signals success on the relink-result channel when
  \<^verbatim>\<open>error\<close> is absent or empty and sends a non-empty \<^verbatim>\<open>error\<close> on the error channel. Both
  then answer \<^verbatim>\<open>ok\<close>.
\<close>

theorem callback_posts:
  assumes "Method r = ''POST''"
  shows "(Get (Form r) ''public_token'' \<noteq> [] \<longrightarrow>
            handleLink linkToken r = [SendResults (Get (Form r) ''public_token''), Write ''ok'']) \<and>
         (map_of (Form r) ''public_token'' = None \<or> Get (Form r) ''public_token'' = [] \<longrightarrow>
            handleLink linkToken r = [SendErrors ''Empty public_token'', Write ''ok'']) \<and>
         (map_of (Form r) ''error'' = None \<or> Get (Form r) ''error'' = [] \<longrightarrow>
            handleRelink linkToken r = [SendRelinkResults True, Write ''ok'']) \<and>
         (Get (Form r) ''error'' \<noteq> [] \<longrightarrow>
            handleRelink linkToken r = [SendErrors (Get (Form r) ''error''), Write ''ok''])"
  using assms by (auto simp: handleLink_def handleRelink_def Let_def Get_absent)

theorem callback_posts_witness:
  "Method (examplePost [(''public_token'', [''public-sandbox-1''])]) = ''POST'' \<and>
   Get (Form (examplePost [(''public_token'', [''public-sandbox-1''])])) ''public_token'' =
     ''public-sandbox-1'' \<and>
   handleLink ''link-token'' (examplePost [(''public_token'', [''public-sandbox-1''])]) =
     [SendResults ''public-sandbox-1'', Write ''ok''] \<and>
   map_of (Form (examplePost [])) ''public_token'' = None \<and>
   handleLink ''link-token'' (examplePost []) = [SendErrors ''Empty public_token'', Write ''ok''] \<and>
   handleLink ''link-token'' (examplePost [(''public_token'', [[]])]) =
     [SendErrors ''Empty public_token'', Write ''ok''] \<and>
   handleRelink ''link-token'' (examplePost [(''error'', [[]])]) =
     [SendRelinkResults True, Write ''ok''] \<and>
   handleRelink ''link-token'' (examplePost []) = [SendRelinkResults True, Write ''ok''] \<and>
   handleRelink ''link-token'' (examplePost [(''error'', [''INVALID_CREDENTIALS''])]) =
     [SendErrors ''INVALID_CREDENTIALS'', Write ''ok'']"
proof -
  have p: "Method (examplePost form) = ''POST''" for form
    by (simp add: examplePost_def)
  show ?thesis
    using callback_posts [OF p [of "[(''public_token'', [''public-sandbox-1''])]"], of "''link-token''"]
      callback_posts [OF p [of "[]"], of "''link-token''"]
      callback_posts [OF p [of "[(''public_token'', [[]])]"], of "''link-token''"]
      callback_posts [OF p [of "[(''error'', [[]])]"], of "''link-token''"]
      callback_posts [OF p [of "[(''error'', [''INVALID_CREDENTIALS''])]"], of "''link-token''"]
    by (simp add: examplePost_def Get_def)
qed

end
